theory Spec2Isabelle
  imports Main "HOL-Library.AList"
begin

section \<open>JavaScript values\<close>

text \<open>
  The module in \<^verbatim>\<open>app/api.tsx\<close> handles loosely typed values: parameter bags read by
  property name, payloads of type \<^verbatim>\<open>any\<close>, and transport responses inspected with lodash
  \<^verbatim>\<open>get\<close>. They are modelled by one datatype of values. Numbers are integers (the
  numbers of the module are identifiers and status codes), objects are association lists
  from property names to values (the first entry of a name is the property), and
  \<open>JRequestError resp e m path\<close> is the object that
  \<^verbatim>\<open>createRequestError(resp, e.stack, m, path)\<close> returns after \<^verbatim>\<open>removeFrames(2)\<close>,
  where \<open>e\<close> numbers the \<^verbatim>\<open>new Error()\<close> object whose stack is passed.
\<close>

datatype APIRequestMethod = POST | GET | DELETE | PUT

datatype jsval =
    JUndefined
  | JNull
  | JBool bool
  | JNum int
  | JStr string
  | JArr "jsval list"
  | JObj "(string \<times> jsval) list"
  | JRequestError jsval nat "APIRequestMethod option" string

type_synonym obj = "(string \<times> jsval) list"

text \<open>Truthiness, as \<^verbatim>\<open>if (v)\<close>, \<^verbatim>\<open>v ? a : b\<close>, \<^verbatim>\<open>v && w\<close> and \<^verbatim>\<open>v || w\<close> test it.\<close>

fun truthy :: "jsval \<Rightarrow> bool" where
  "truthy JUndefined = False"
| "truthy JNull = False"
| "truthy (JBool b) = b"
| "truthy (JNum n) = (n \<noteq> 0)"
| "truthy (JStr s) = (s \<noteq> [])"
| "truthy (JArr xs) = True"
| "truthy (JObj kvs) = True"
| "truthy (JRequestError resp e m path) = True"

text \<open>lodash \<^verbatim>\<open>isNil\<close> and \<^verbatim>\<open>isUndefined\<close>.\<close>

fun isNil :: "jsval \<Rightarrow> bool" where
  "isNil JUndefined = True"
| "isNil JNull = True"
| "isNil v = False"

fun isUndefined :: "jsval \<Rightarrow> bool" where
  "isUndefined JUndefined = True"
| "isUndefined v = False"

text \<open>Reading a property of an object: \<^verbatim>\<open>o[k]\<close>, undefined when the object has none.\<close>

definition getProp :: "obj \<Rightarrow> string \<Rightarrow> jsval" where
  "getProp ob k = (case map_of ob k of None \<Rightarrow> JUndefined | Some v \<Rightarrow> v)"

text \<open>\<^verbatim>\<open>v.length\<close> of an array or a string; other values have no such property.\<close>

fun js_length :: "jsval \<Rightarrow> jsval" where
  "js_length (JArr xs) = JNum (int (length xs))"
| "js_length (JStr s) = JNum (int (length s))"
| "js_length v = JUndefined"

text \<open>
  lodash \<^verbatim>\<open>get(v, 'a.b.c')\<close> with the path split at the dots: it descends through
  objects and yields undefined as soon as a step is missing or the value is not an
  object (the paths of the module name no property of a string or an array).
\<close>

fun get_path :: "jsval \<Rightarrow> string list \<Rightarrow> jsval" where
  "get_path v [] = v"
| "get_path (JObj kvs) (k # ks) =
     (case map_of kvs k of None \<Rightarrow> JUndefined | Some w \<Rightarrow> get_path w ks)"
| "get_path v (k # ks) = JUndefined"

section \<open>paramsToQueryArgs\<close>

text \<open>
  The parameter bag is an object read by property name (\<^verbatim>\<open>params.itemIds\<close>,
  \<^verbatim>\<open>params[prop]\<close>) and the result \<^verbatim>\<open>p\<close> is an object built by assignments
  \<^verbatim>\<open>p[k] = v\<close>, here \<open>AList.update\<close>. The four steps follow the source in order; the
  \<^verbatim>\<open>forEach\<close> over the date properties is a fold over the same list of names.
\<close>

definition copyDateProp :: "obj \<Rightarrow> obj \<Rightarrow> string \<Rightarrow> obj" where
  "copyDateProp params p pr =
     (if \<not> isNil (getProp params pr)
      then AList.update (if pr = ''period'' then ''statsPeriod'' else pr) (getProp params pr) p
      else p)"

definition paramsToQueryArgs :: "obj \<Rightarrow> obj" where
  "paramsToQueryArgs params =
     (let p0 = (if truthy (getProp params ''itemIds'') then [(''id'', getProp params ''itemIds'')]
                else if truthy (getProp params ''query'') then [(''query'', getProp params ''query'')]
                else []);
          p1 = (if truthy (getProp params ''query'') \<and> \<not> isNil (getProp params ''environment'')
                then AList.update ''environment'' (getProp params ''environment'') p0
                else p0);
          p2 = (if truthy (getProp params ''project'') \<and> truthy (js_length (getProp params ''project''))
                then AList.update ''project'' (getProp params ''project'') p1
                else p1)
      in if truthy (getProp params ''query'')
         then foldl (copyDateProp params) p2 [''start'', ''end'', ''period'', ''utc'']
         else p2)"

text \<open>The input property a date key of the result is copied from.\<close>

definition dateSource :: "string \<Rightarrow> string" where
  "dateSource k = (if k = ''statsPeriod'' then ''period'' else k)"

definition dateKeys :: "string list" where
  "dateKeys = [''start'', ''end'', ''statsPeriod'', ''utc'']"

section \<open>Requests, callbacks and the world around the client\<close>

text \<open>
  A callback is a function value. Caller-supplied functions are opaque: \<open>UserCallback n\<close>
  is the caller's function number \<open>n\<close>, and calling it is recorded in the trace (it is
  taken to return normally and not to call back into the client). The two closures that
  \<^verbatim>\<open>requestPromise\<close> passes to \<^verbatim>\<open>request\<close> are the other two constructors, each with the
  variables it captures: the promise (for \<^verbatim>\<open>resolve\<close>/\<^verbatim>\<open>reject\<close>), \<^verbatim>\<open>includeAllArgs\<close>, and
  for the error closure \<^verbatim>\<open>preservedError\<close>, \<^verbatim>\<open>options.method\<close> and \<^verbatim>\<open>path\<close>.
\<close>

datatype callback =
    UserCallback nat
  | PromiseSuccess nat bool
  | PromiseError nat nat "APIRequestMethod option" string

text \<open>
  The options of a request. The field \<open>method'\<close> is \<^verbatim>\<open>options.method\<close> (the plain name is
  a keyword of the proof language).
\<close>

record RequestOptions =
  method' :: "APIRequestMethod option"
  data :: jsval
  query :: jsval
  preservedError :: "nat option"
  success :: "callback option"
  complete :: "callback option"
  error :: "callback option"

text \<open>
  Class \<^verbatim>\<open>Request\<close>: the liveness flag and the jqXHR, which is named by the number of the
  \<^verbatim>\<open>$.ajax\<close> call that returned it. Request objects are mutable and shared between the
  registry and the handle returned to the caller, so they live in a heap (a list indexed
  by address) and both the registry and the caller hold addresses.
\<close>

record Request =
  alive :: bool
  xhr :: nat

text \<open>
  One \<^verbatim>\<open>$.ajax\<close> call: its settings object, the variables of \<^verbatim>\<open>request\<close> that its three
  handler closures capture (\<^verbatim>\<open>id\<close>, \<^verbatim>\<open>path\<close>, \<^verbatim>\<open>options\<close>, \<^verbatim>\<open>errorObject\<close>, the span), and
  the flag of its jqXHR that says whether jQuery has completed the call.
\<close>

record ajaxSettings =
  completed :: bool
  url :: string
  ajax_method :: APIRequestMethod
  ajax_data :: jsval
  contentType :: string
  headers :: "(string \<times> string) list"
  req_id :: string
  req_path :: string
  req_options :: RequestOptions
  req_errorObject :: nat
  req_span :: "jsval \<times> string"

text \<open>
  The argument of one \<^verbatim>\<open>openSudo\<close> call: the two flags, and the variables of
  \<^verbatim>\<open>handleRequestError\<close> captured by its \<^verbatim>\<open>retryRequest\<close> and \<^verbatim>\<open>onClose\<close> closures.
\<close>

record sudoOptions =
  superuser :: bool
  sudo :: bool
  sudo_path :: string
  sudo_requestOptions :: RequestOptions
  sudo_response :: jsval

text \<open>
  Promises. The only reactions the module attaches are those of
  \<^verbatim>\<open>requestPromise(...).then(f).catch(g)\<close> in \<^verbatim>\<open>retryRequest\<close>, where \<^verbatim>\<open>f\<close> calls
  \<^verbatim>\<open>requestOptions.success\<close> and \<^verbatim>\<open>g\<close> calls \<^verbatim>\<open>requestOptions.error\<close>, each if it is a
  function: \<open>Forward sc ec\<close> with the two captured callbacks. A reaction runs as a
  microtask after the promise has settled.
\<close>

datatype settlement = Pending | Resolved jsval | Rejected jsval

datatype reaction = Forward "callback option" "callback option"

record promise =
  settled :: settlement
  reactions :: "reaction list"

text \<open>What the module does to its collaborators, in the order it does it.\<close>

datatype effect =
    Metric string int
  | MetricMark string
  | MetricMeasure string string jsval
  | XhrAbort nat
  | StartSpan jsval string
  | FinishSpan jsval string
  | CaptureException "string option" "(string \<times> jsval) list" "(string \<times> jsval) list" jsval
  | RedirectToProject jsval
  | Invoke nat "jsval list"
  | UncaughtTypeError

text \<open>
  The state: the two fields of class \<^verbatim>\<open>Client\<close> (\<open>baseUrl\<close>, \<open>activeRequests\<close>; the
  registry keeps the insertion order of its keys, as a JavaScript object does), and the
  world the client acts on: the heap of Request objects, the \<^verbatim>\<open>$.ajax\<close> calls issued, the
  number of \<^verbatim>\<open>new Error()\<close> objects created, the promises, the microtask queue, the
  re-authentication modals opened, and the trace of effects.
  \<open>CaptureException level tags extras e\<close> is \<^verbatim>\<open>Sentry.captureException(e)\<close> in a scope
  with that level, those tags and those extras.
\<close>

record state =
  baseUrl :: string
  activeRequests :: "(string \<times> nat) list"
  heap :: "Request list"
  ajaxCalls :: "ajaxSettings list"
  errorObjects :: nat
  promises :: "promise list"
  microtasks :: "(reaction \<times> settlement) list"
  sudoModals :: "sudoOptions list"
  trace :: "effect list"

text \<open>
  What the module imports and this file does not define: the three error codes of
  \<^verbatim>\<open>app/constants/apiErrorCodes\<close>, jQuery's \<^verbatim>\<open>$.param(q, true)\<close> and \<^verbatim>\<open>JSON.stringify\<close>.
  Both serializers can throw (\<open>Inl\<close> the thrown value). They are parameters of the model.
\<close>

record externals =
  PROJECT_MOVED :: string
  SUDO_REQUIRED :: string
  SUPERUSER_REQUIRED :: string
  param :: "jsval \<Rightarrow> jsval + string"
  stringify :: "jsval \<Rightarrow> jsval + jsval"

section \<open>Operations\<close>

definition log :: "effect list \<Rightarrow> state \<Rightarrow> state" where
  "log es s = s\<lparr>trace := trace s @ es\<rparr>"

text \<open>The first of a list of arguments (\<^verbatim>\<open>undefined\<close> when there is none).\<close>

definition firstArg :: "jsval list \<Rightarrow> jsval" where
  "firstArg args = (case args of [] \<Rightarrow> JUndefined | v # _ \<Rightarrow> v)"

text \<open>\<^verbatim>\<open>v && v.status\<close>: the property is read only if \<open>v\<close> is truthy.\<close>

definition statusOf :: "jsval \<Rightarrow> jsval" where
  "statusOf v = (if truthy v then get_path v [''status''] else v)"

text \<open>\<^verbatim>\<open>hay.indexOf(needle) !== -1\<close>.\<close>

fun indexOfFound :: "string \<Rightarrow> string \<Rightarrow> bool" where
  "indexOfFound [] needle = (needle = [])"
| "indexOfFound (c # cs) needle =
     (take (length needle) (c # cs) = needle \<or> indexOfFound cs needle)"

fun methodName :: "APIRequestMethod \<Rightarrow> string" where
  "methodName POST = ''POST''"
| "methodName GET = ''GET''"
| "methodName DELETE = ''DELETE''"
| "methodName PUT = ''PUT''"

text \<open>
  The constructor of \<^verbatim>\<open>Client\<close>: \<^verbatim>\<open>options.baseUrl || '/api/0'\<close> and an empty registry
  (\<open>None\<close>: no options, or no \<^verbatim>\<open>baseUrl\<close> in them).
\<close>

definition newClient :: "string option \<Rightarrow> state" where
  "newClient b =
     \<lparr>baseUrl = (case b of None \<Rightarrow> ''/api/0'' | Some u \<Rightarrow> if u \<noteq> [] then u else ''/api/0''),
      activeRequests = [], heap = [], ajaxCalls = [], errorObjects = 0, promises = [],
      microtasks = [], sudoModals = [], trace = []\<rparr>"

text \<open>
  Settling a promise (\<^verbatim>\<open>resolve\<close>, \<^verbatim>\<open>reject\<close>): only a pending promise changes, and its
  reactions are queued as microtasks. \<open>addReaction\<close> is \<^verbatim>\<open>.then(f).catch(g)\<close>.
\<close>

definition settle :: "nat \<Rightarrow> settlement \<Rightarrow> state \<Rightarrow> state" where
  "settle p v s =
     (if p < length (promises s) \<and> settled (promises s ! p) = Pending \<and> v \<noteq> Pending
      then s\<lparr>promises := (promises s)[p := (promises s ! p)\<lparr>settled := v\<rparr>],
             microtasks := microtasks s @ map (\<lambda>r. (r, v)) (reactions (promises s ! p))\<rparr>
      else s)"

definition addReaction :: "nat \<Rightarrow> reaction \<Rightarrow> state \<Rightarrow> state" where
  "addReaction p r s =
     (if p < length (promises s)
      then (case settled (promises s ! p) of
              Pending \<Rightarrow>
                s\<lparr>promises := (promises s)
                     [p := (promises s ! p)\<lparr>reactions := reactions (promises s ! p) @ [r]\<rparr>]\<rparr>
            | v \<Rightarrow> s\<lparr>microtasks := microtasks s @ [(r, v)]\<rparr>)
      else s)"

text \<open>
  Calling a callback with arguments. The success closure of \<^verbatim>\<open>requestPromise\<close> is
  \<^verbatim>\<open>(data, ...args) => includeAllArgs ? resolve([data, ...args]) : resolve(data)\<close>; its
  error closure is \<^verbatim>\<open>resp => reject(createRequestError(resp, preservedError.stack,
  options.method, path))\<close>.
\<close>

fun invoke :: "callback \<Rightarrow> jsval list \<Rightarrow> state \<Rightarrow> state" where
  "invoke (UserCallback n) args s = log [Invoke n args] s"
| "invoke (PromiseSuccess p includeAllArgs) args s =
     settle p (Resolved (if includeAllArgs then JArr (firstArg args # tl args)
                         else firstArg args)) s"
| "invoke (PromiseError p e m path) args s =
     settle p (Rejected (JRequestError (firstArg args) e m path)) s"

definition hasProjectBeenRenamed :: "externals \<Rightarrow> jsval \<Rightarrow> state \<Rightarrow> bool \<times> state" where
  "hasProjectBeenRenamed ext response s =
     (let code = get_path response [''responseJSON'', ''detail'', ''code'']
      in if code \<noteq> JStr (PROJECT_MOVED ext) then (False, s)
         else (True, log [RedirectToProject
                 (get_path response [''responseJSON'', ''detail'', ''extra'', ''slug''])] s))"

text \<open>
  \<^verbatim>\<open>wrapCallback(id, func, cleanup)(...args)\<close>. The registry entry is read first, then
  deleted if \<open>cleanup\<close>; the test \<^verbatim>\<open>req && req.alive\<close> is on the entry that was read.
\<close>

definition wrapCallback ::
  "externals \<Rightarrow> string \<Rightarrow> callback option \<Rightarrow> bool \<Rightarrow> jsval list \<Rightarrow> state \<Rightarrow> state" where
  "wrapCallback ext rid func cleanup args s =
     (let req = map_of (activeRequests s) rid;
          s1 = (if cleanup then s\<lparr>activeRequests := AList.delete rid (activeRequests s)\<rparr>
                else s)
      in case req of
           None \<Rightarrow> s1
         | Some a \<Rightarrow>
             if a < length (heap s1) \<and> alive (heap s1 ! a)
             then (case hasProjectBeenRenamed ext (firstArg args) s1 of
                     (True, s2) \<Rightarrow> s2
                   | (False, s2) \<Rightarrow> (case func of None \<Rightarrow> s2 | Some f \<Rightarrow> invoke f args s2))
             else s1)"

text \<open>
  \<^verbatim>\<open>handleRequestError({id, path, requestOptions}, response, ...responseArgs)\<close>. In the
  re-authentication branch \<^verbatim>\<open>openSudo\<close> is called with the two flags and the two closures
  and the function returns.
\<close>

definition handleRequestError ::
  "externals \<Rightarrow> string \<Rightarrow> string \<Rightarrow> RequestOptions \<Rightarrow> jsval \<Rightarrow> jsval list \<Rightarrow> state \<Rightarrow> state" where
  "handleRequestError ext rid path requestOptions response responseArgs s =
     (let code = get_path response [''responseJSON'', ''detail'', ''code''];
          isSudoRequired = (code = JStr (SUDO_REQUIRED ext) \<or> code = JStr (SUPERUSER_REQUIRED ext))
      in if isSudoRequired
         then s\<lparr>sudoModals := sudoModals s @
                 [\<lparr>superuser = (code = JStr (SUPERUSER_REQUIRED ext)),
                   sudo = (code = JStr (SUDO_REQUIRED ext)),
                   sudo_path = path,
                   sudo_requestOptions = requestOptions,
                   sudo_response = response\<rparr>]\<rparr>
         else wrapCallback ext rid (error requestOptions) False (response # responseArgs) s)"

text \<open>
  \<^verbatim>\<open>request(path, options)\<close>; \<open>rid\<close> is the value \<^verbatim>\<open>uniqueId()\<close> returns in this call.
  The result is the thrown value (\<open>Inl\<close>) or the address of the new Request object.
\<close>

definition effectiveMethod :: "RequestOptions \<Rightarrow> APIRequestMethod" where
  "effectiveMethod options =
     (case method' options of
        Some m \<Rightarrow> m
      | None \<Rightarrow> if truthy (data options) then POST else GET)"

definition requestBody :: "externals \<Rightarrow> RequestOptions \<Rightarrow> jsval + jsval" where
  "requestBody ext options =
     (if \<not> isUndefined (data options) \<and> effectiveMethod options \<noteq> GET
      then stringify ext (data options)
      else Inr (data options))"

definition fullUrl :: "string \<Rightarrow> string \<Rightarrow> string \<Rightarrow> string" where
  "fullUrl base path q =
     (let u = (if \<not> indexOfFound path base then base @ path else path)
      in if q \<noteq> []
         then (if indexOfFound u ''?'' then u @ ''&'' @ q else u @ ''?'' @ q)
         else u)"

definition request ::
  "externals \<Rightarrow> string \<Rightarrow> RequestOptions \<Rightarrow> string \<Rightarrow> state \<Rightarrow> (jsval + nat) \<times> state" where
  "request ext path options rid s =
     (case requestBody ext options of
        Inl err \<Rightarrow> (Inl err, s)
      | Inr d \<Rightarrow>
          (let m = effectiveMethod options;
               span = (d, methodName m @ '' '' @ path);
               s1 = log [StartSpan (fst span) (snd span)] s
           in case param ext (if truthy (query options) then query options else JArr []) of
                Inl err \<Rightarrow>
                  (Inl err,
                   log [CaptureException None []
                          [(''path'', JStr path), (''query'', query options)] err] s1)
              | Inr q \<Rightarrow>
                  (let s2 = log [MetricMark (''api-request-start-'' @ rid)] s1;
                       a = length (heap s2)
                   in (Inr a,
                       s2\<lparr>errorObjects := Suc (errorObjects s2),
                          ajaxCalls := ajaxCalls s2 @
                            [\<lparr>completed = False,
                              url = fullUrl (baseUrl s2) path q,
                              ajax_method = m,
                              ajax_data = d,
                              contentType = ''application/json'',
                              headers = [(''Accept'', ''application/json; charset=utf-8'')],
                              req_id = rid,
                              req_path = path,
                              req_options = options,
                              req_errorObject = errorObjects s2,
                              req_span = span\<rparr>],
                          heap := heap s2 @ [\<lparr>alive = True, xhr = length (ajaxCalls s2)\<rparr>],
                          activeRequests := AList.update rid a (activeRequests s2)\<rparr>))))"

text \<open>
  The three handlers given to \<^verbatim>\<open>$.ajax\<close> by the call number \<open>x\<close>, as the transport
  calls them. In the error handler \<^verbatim>\<open>String(resp.status)\<close> reads a property of \<open>resp\<close>
  unguarded, which throws for \<^verbatim>\<open>null\<close> and \<^verbatim>\<open>undefined\<close>; the trace records the value
  passed to \<^verbatim>\<open>String\<close>.
\<close>

definition ajaxSuccess :: "externals \<Rightarrow> nat \<Rightarrow> jsval \<Rightarrow> jsval \<Rightarrow> jsval \<Rightarrow> state \<Rightarrow> state" where
  "ajaxSuccess ext x d textStatus jqxhr s =
     (if x < length (ajaxCalls s)
      then (let c = ajaxCalls s ! x;
                s1 = log [MetricMeasure ''app.api.request-success''
                            (''api-request-start-'' @ req_id c) (statusOf jqxhr)] s
            in case success (req_options c) of
                 None \<Rightarrow> s1
               | Some f \<Rightarrow> wrapCallback ext (req_id c) (Some f) False [d, textStatus, jqxhr] s1)
      else s)"

definition ajaxError :: "externals \<Rightarrow> nat \<Rightarrow> jsval \<Rightarrow> jsval \<Rightarrow> jsval \<Rightarrow> state \<Rightarrow> state" where
  "ajaxError ext x resp textStatus errorThrown s =
     (if x < length (ajaxCalls s)
      then (let c = ajaxCalls s ! x;
                s1 = log [MetricMeasure ''app.api.request-error''
                            (''api-request-start-'' @ req_id c) (statusOf resp)] s
            in if isNil resp then log [UncaughtTypeError] s1
               else
                 (let preserved = (case preservedError (req_options c) of
                                     Some e \<Rightarrow> e | None \<Rightarrow> req_errorObject c);
                      errorObjectToUse =
                        JRequestError resp preserved (Some (ajax_method c)) (req_path c);
                      s2 = log [CaptureException (Some ''warning'')
                                  [(''http.statusCode'', get_path resp [''status''])] []
                                  errorObjectToUse] s1
                  in handleRequestError ext (req_id c) (req_path c) (req_options c)
                       resp [textStatus, errorThrown] s2))
      else s)"

definition ajaxComplete :: "externals \<Rightarrow> nat \<Rightarrow> jsval \<Rightarrow> jsval \<Rightarrow> state \<Rightarrow> state" where
  "ajaxComplete ext x jqxhr textStatus s =
     (if x < length (ajaxCalls s)
      then (let c = ajaxCalls s ! x;
                s1 = log [FinishSpan (fst (req_span c)) (snd (req_span c))] s
            in wrapCallback ext (req_id c) (complete (req_options c)) True [jqxhr, textStatus] s1)
      else s)"

text \<open>
  The transport is jQuery's \<^verbatim>\<open>$.ajax\<close>, which is not part of the repository; of its
  behaviour the model has what the handlers and \<^verbatim>\<open>Request.cancel\<close> depend on. A call
  completes once: jQuery then calls the success or the error handler and after it the
  complete handler, and a call that has completed ignores whatever arrives later.
  \<^verbatim>\<open>jqXHR.abort()\<close> completes a call that has not completed, at once, as a failure with
  status 0, the status text \<^verbatim>\<open>abort\<close> and no \<^verbatim>\<open>responseJSON\<close>.
\<close>

datatype outcome =
    Succeeded jsval jsval jsval
  | Failed jsval jsval jsval

definition markCompleted :: "nat \<Rightarrow> state \<Rightarrow> state" where
  "markCompleted x s = s\<lparr>ajaxCalls := (ajaxCalls s)[x := (ajaxCalls s ! x)\<lparr>completed := True\<rparr>]\<rparr>"

definition jqDone :: "externals \<Rightarrow> nat \<Rightarrow> outcome \<Rightarrow> state \<Rightarrow> state" where
  "jqDone ext x r s =
     (if x < length (ajaxCalls s) \<and> \<not> completed (ajaxCalls s ! x)
      then (case r of
              Succeeded d textStatus jqxhr \<Rightarrow>
                ajaxComplete ext x jqxhr textStatus
                  (ajaxSuccess ext x d textStatus jqxhr (markCompleted x s))
            | Failed jqxhr textStatus errorThrown \<Rightarrow>
                ajaxComplete ext x jqxhr textStatus
                  (ajaxError ext x jqxhr textStatus errorThrown (markCompleted x s)))
      else s)"

definition abortedXhr :: jsval where
  "abortedXhr = JObj [(''readyState'', JNum 0), (''status'', JNum 0), (''statusText'', JStr ''abort'')]"

definition abort :: "externals \<Rightarrow> nat \<Rightarrow> state \<Rightarrow> state" where
  "abort ext x s = jqDone ext x (Failed abortedXhr (JStr ''abort'') (JStr ''abort'')) s"

text \<open>
  \<^verbatim>\<open>Request.cancel\<close> on the Request object at address \<open>a\<close>: \<^verbatim>\<open>this.alive = false\<close>, then
  \<^verbatim>\<open>this.xhr.abort()\<close>, inside which the handlers of the call run if it has not completed,
  then the metric. A handle is always the address of a Request object.
\<close>

definition markCancelled :: "nat \<Rightarrow> state \<Rightarrow> state" where
  "markCancelled a s = s\<lparr>heap := (heap s)[a := (heap s ! a)\<lparr>alive := False\<rparr>]\<rparr>"

definition cancel :: "externals \<Rightarrow> nat \<Rightarrow> state \<Rightarrow> state" where
  "cancel ext a s =
     (if a < length (heap s)
      then log [Metric ''app.api.request-abort'' 1]
             (abort ext (xhr (heap s ! a))
                (log [XhrAbort (xhr (heap s ! a))] (markCancelled a s)))
      else s)"

text \<open>
  \<^verbatim>\<open>clear\<close>: the \<^verbatim>\<open>for ... in\<close> loop over the keys of the registry; a key that an earlier
  turn of the loop has deleted is not visited.
\<close>

definition clear :: "externals \<Rightarrow> state \<Rightarrow> state" where
  "clear ext s =
     foldl (\<lambda>t k. case map_of (activeRequests t) k of None \<Rightarrow> t | Some a \<Rightarrow> cancel ext a t)
       s (map fst (activeRequests s))"

text \<open>
  \<^verbatim>\<open>requestPromise(path, {includeAllArgs, ...options})\<close>: a new Error object, a new
  promise, and the call of \<^verbatim>\<open>request\<close> inside the promise's executor, so that a value
  thrown by \<^verbatim>\<open>request\<close> rejects the promise. The result is the promise.
\<close>

definition requestPromise ::
  "externals \<Rightarrow> string \<Rightarrow> bool \<Rightarrow> RequestOptions \<Rightarrow> string \<Rightarrow> state \<Rightarrow> nat \<times> state" where
  "requestPromise ext path includeAllArgs options rid s =
     (let e = errorObjects s;
          p = length (promises s);
          s1 = s\<lparr>errorObjects := Suc e,
                 promises := promises s @ [\<lparr>settled = Pending, reactions = []\<rparr>]\<rparr>
      in case request ext path
                (options\<lparr>preservedError := Some e,
                         success := Some (PromiseSuccess p includeAllArgs),
                         error := Some (PromiseError p e (method' options) path)\<rparr>) rid s1 of
           (Inl err, s2) \<Rightarrow> (p, settle p (Rejected err) s2)
         | (Inr a, s2) \<Rightarrow> (p, s2))"

text \<open>
  The two closures given to \<^verbatim>\<open>openSudo\<close> in its call number \<open>k\<close>, as the
  re-authentication flow calls them; \<open>rid\<close> is the identifier of the retried request.
\<close>

definition retryRequest :: "externals \<Rightarrow> nat \<Rightarrow> string \<Rightarrow> state \<Rightarrow> state" where
  "retryRequest ext k rid s =
     (if k < length (sudoModals s)
      then (let m = sudoModals s ! k
            in case requestPromise ext (sudo_path m) False (sudo_requestOptions m) rid s of
                 (p, s1) \<Rightarrow>
                   addReaction p (Forward (success (sudo_requestOptions m))
                                          (error (sudo_requestOptions m))) s1)
      else s)"

definition onClose :: "nat \<Rightarrow> state \<Rightarrow> state" where
  "onClose k s =
     (if k < length (sudoModals s)
      then (let m = sudoModals s ! k
            in case error (sudo_requestOptions m) of
                 None \<Rightarrow> s
               | Some f \<Rightarrow> invoke f [sudo_response m] s)
      else s)"

text \<open>Running one reaction of a settled promise, and the microtask queue to its end.\<close>

fun runReaction :: "reaction \<Rightarrow> settlement \<Rightarrow> state \<Rightarrow> state" where
  "runReaction (Forward sc ec) (Resolved v) s = (case sc of None \<Rightarrow> s | Some f \<Rightarrow> invoke f [v] s)"
| "runReaction (Forward sc ec) (Rejected e) s = (case ec of None \<Rightarrow> s | Some f \<Rightarrow> invoke f [e] s)"
| "runReaction (Forward sc ec) Pending s = s"

definition pendingCount :: "state \<Rightarrow> nat" where
  "pendingCount s = length (filter (\<lambda>p. settled p = Pending) (promises s))"

text \<open>
  Each microtask either settles a pending promise or leaves the promises and the rest of
  the queue as they are, so the queue runs empty.
\<close>

lemma filter_update_less:
  assumes "i < length xs" and "P (xs ! i)" and "\<not> P y"
  shows "length (filter P (xs[i := y])) < length (filter P xs)"
  using assms
proof (induction xs arbitrary: i)
  case Nil
  then show ?case by simp
next
  case (Cons x xs)
  show ?case
  proof (cases i)
    case 0
    with Cons.prems show ?thesis
      by (simp add: less_Suc_eq_le)
  next
    case (Suc j)
    with Cons.prems Cons.IH [of j] show ?thesis
      by auto
  qed
qed

lemma settle_measure:
  "settle p v s = s \<or> pendingCount (settle p v s) < pendingCount s"
  by (auto simp: settle_def pendingCount_def intro!: filter_update_less)

lemma invoke_measure:
  "(pendingCount (invoke f args s) = pendingCount s
      \<and> microtasks (invoke f args s) = microtasks s)
   \<or> pendingCount (invoke f args s) < pendingCount s"
proof (cases f)
  case (UserCallback n)
  then show ?thesis by (simp add: log_def pendingCount_def)
next
  case (PromiseSuccess p b)
  then show ?thesis using settle_measure by (metis invoke.simps(2))
next
  case (PromiseError p e m path)
  then show ?thesis using settle_measure by (metis invoke.simps(3))
qed

lemma runReaction_measure:
  "(pendingCount (runReaction r v s) = pendingCount s
      \<and> microtasks (runReaction r v s) = microtasks s)
   \<or> pendingCount (runReaction r v s) < pendingCount s"
  using invoke_measure
  by (cases r; cases v) (auto split: option.splits)

function runMicrotasks :: "state \<Rightarrow> state" where
  "runMicrotasks s =
     (case microtasks s of
        [] \<Rightarrow> s
      | (r, v) # ts \<Rightarrow> runMicrotasks (runReaction r v (s\<lparr>microtasks := ts\<rparr>)))"
  by pat_completeness auto
termination runMicrotasks
proof (relation "measures [pendingCount, \<lambda>s. length (microtasks s)]")
  show "wf (measures [pendingCount, \<lambda>s. length (microtasks s)])" by simp
next
  fix s :: state and x xs r v
  assume "microtasks s = x # xs" and "(r, v) = x"
  then show "(runReaction r v (s\<lparr>microtasks := xs\<rparr>), s)
      \<in> measures [pendingCount, \<lambda>s. length (microtasks s)]"
    using runReaction_measure [of r v "s\<lparr>microtasks := xs\<rparr>"]
    by (auto simp: pendingCount_def)
qed

declare runMicrotasks.simps [simp del]

section \<open>Notions used in the statements\<close>

text \<open>
  The test \<^verbatim>\<open>req && req.alive\<close> of \<^verbatim>\<open>wrapCallback\<close> for the identifier \<open>rid\<close>: the
  identifier is registered and its Request object is alive.
\<close>

definition liveRequest :: "state \<Rightarrow> string \<Rightarrow> bool" where
  "liveRequest s rid =
     (case map_of (activeRequests s) rid of
        None \<Rightarrow> False
      | Some a \<Rightarrow> a < length (heap s) \<and> alive (heap s ! a))"

text \<open>The calls of caller-supplied functions in a trace, in order.\<close>

fun isInvoke :: "effect \<Rightarrow> bool" where
  "isInvoke (Invoke n args) = True"
| "isInvoke e = False"

definition invocations :: "state \<Rightarrow> effect list" where
  "invocations s = filter isInvoke (trace s)"

text \<open>
  The response carries one of the two codes that ask for re-authentication, or the
  code of a moved project.
\<close>

definition isSudoRequired :: "externals \<Rightarrow> jsval \<Rightarrow> bool" where
  "isSudoRequired ext response =
     (get_path response [''responseJSON'', ''detail'', ''code''] = JStr (SUDO_REQUIRED ext)
      \<or> get_path response [''responseJSON'', ''detail'', ''code'']
          = JStr (SUPERUSER_REQUIRED ext))"

definition isProjectMoved :: "externals \<Rightarrow> jsval \<Rightarrow> bool" where
  "isProjectMoved ext response =
     (get_path response [''responseJSON'', ''detail'', ''code''] = JStr (PROJECT_MOVED ext))"

text \<open>
  Addresses in the registry are allocated Request objects, and the jqXHR of a Request
  object is one of the calls issued: both hold in every state the client reaches from
  \<open>newClient\<close>.
\<close>

definition wellFormed :: "state \<Rightarrow> bool" where
  "wellFormed s =
     (list_all (\<lambda>(k, a). a < length (heap s)) (activeRequests s)
      \<and> list_all (\<lambda>r. xhr r < length (ajaxCalls s)) (heap s))"

text \<open>
  The request with identifier \<open>rid\<close> and handle \<open>a\<close> has been issued and has not
  completed: its transport call is open and the registry holds the handle under the
  identifier.
\<close>

definition inFlight :: "state \<Rightarrow> string \<Rightarrow> nat \<Rightarrow> bool" where
  "inFlight s rid a =
     (a < length (heap s)
      \<and> xhr (heap s ! a) < length (ajaxCalls s)
      \<and> \<not> completed (ajaxCalls s ! xhr (heap s ! a))
      \<and> req_id (ajaxCalls s ! xhr (heap s ! a)) = rid
      \<and> map_of (activeRequests s) rid = Some a)"

text \<open>
  The trace of \<open>t\<close> extends the trace of \<open>s\<close>, and what it adds holds no abort of the
  transport call number \<open>x\<close>.
\<close>

definition noAbortOf :: "nat \<Rightarrow> state \<Rightarrow> state \<Rightarrow> bool" where
  "noAbortOf x s t =
     (take (length (trace s)) (trace t) = trace s
      \<and> XhrAbort x \<notin> set (drop (length (trace s)) (trace t)))"

section \<open>Example values\<close>

text \<open>
  An environment for the examples: the three codes, and serializers that do not throw;
  one whose \<^verbatim>\<open>$.param\<close> throws; a response that asks for re-authentication and one
  that fails otherwise; and options with the three callbacks of a caller.
\<close>

definition exampleExternals :: externals where
  "exampleExternals =
     \<lparr>PROJECT_MOVED = ''project-moved'', SUDO_REQUIRED = ''sudo-required'',
      SUPERUSER_REQUIRED = ''superuser-required'',
      param = (\<lambda>q. Inr []), stringify = (\<lambda>v. Inr (JStr ''[1,2]''))\<rparr>"

definition throwingExternals :: externals where
  "throwingExternals = exampleExternals\<lparr>param := (\<lambda>q. Inl (JStr ''cyclic object value''))\<rparr>"

definition exampleOptions :: RequestOptions where
  "exampleOptions =
     \<lparr>method' = None, data = JUndefined, query = JUndefined, preservedError = None,
      success = Some (UserCallback 1), complete = Some (UserCallback 2),
      error = Some (UserCallback 3)\<rparr>"

definition updateOptions :: RequestOptions where
  "updateOptions = exampleOptions\<lparr>data := JArr [JNum 1, JNum 2]\<rparr>"

definition sudoResponse :: jsval where
  "sudoResponse =
     JObj [(''status'', JNum 401),
           (''responseJSON'', JObj [(''detail'', JObj [(''code'', JStr ''sudo-required'')])])]"

definition failedResponse :: jsval where
  "failedResponse = JObj [(''status'', JNum 500)]"

text \<open>
  A client that has issued one request; the same after the handle's \<^verbatim>\<open>cancel()\<close>; and
  the state inside that \<^verbatim>\<open>cancel()\<close> in which the complete handler of the aborted call
  runs (the handle is marked, the call is completed, the error handler has run).
\<close>

definition issuedState :: state where
  "issuedState = snd (request exampleExternals ''/projects/'' exampleOptions ''r1'' (newClient None))"

definition cancelledState :: state where
  "cancelledState = cancel exampleExternals 0 issuedState"

definition abortingState :: state where
  "abortingState =
     ajaxError exampleExternals 0 abortedXhr (JStr ''abort'') (JStr ''abort'')
       (markCompleted 0 (log [XhrAbort 0] (markCancelled 0 issuedState)))"

text \<open>
  A client that has issued one request through \<^verbatim>\<open>requestPromise\<close>, without and with a
  payload; the client of \<open>issuedState\<close> after \<^verbatim>\<open>handleRequestError\<close> got the response that
  asks for re-authentication; and the client of \<open>issuedState\<close> after the transport
  delivered that response (error handler, then complete handler) and the handle was
  cancelled afterwards.
\<close>

definition promiseState :: state where
  "promiseState =
     snd (requestPromise exampleExternals ''/projects/'' False exampleOptions ''r1''
            (newClient None))"


definition sudoState :: state where
  "sudoState =
     handleRequestError exampleExternals ''r1'' ''/projects/'' exampleOptions sudoResponse
       [JStr ''error'', JStr ''Unauthorized''] issuedState"

definition closedState :: state where
  "closedState =
     cancel exampleExternals 0
       (jqDone exampleExternals 0 (Failed sudoResponse (JStr ''error'') (JStr ''Unauthorized''))
          issuedState)"

text \<open>Options that name the method, and a client that has issued them through \<^verbatim>\<open>requestPromise\<close>.\<close>

definition deleteOptions :: RequestOptions where
  "deleteOptions = exampleOptions\<lparr>method' := Some DELETE\<rparr>"


section \<open>Basic facts about the operations\<close>

lemma log_fields [simp]:
  "trace (log es s) = trace s @ es"
  "activeRequests (log es s) = activeRequests s"
  "heap (log es s) = heap s"
  "ajaxCalls (log es s) = ajaxCalls s"
  "promises (log es s) = promises s"
  "microtasks (log es s) = microtasks s"
  "sudoModals (log es s) = sudoModals s"
  "errorObjects (log es s) = errorObjects s"
  "baseUrl (log es s) = baseUrl s"
  by (simp_all add: log_def)

lemma settle_fields [simp]:
  "trace (settle p v s) = trace s"
  "activeRequests (settle p v s) = activeRequests s"
  "heap (settle p v s) = heap s"
  "ajaxCalls (settle p v s) = ajaxCalls s"
  "sudoModals (settle p v s) = sudoModals s"
  "errorObjects (settle p v s) = errorObjects s"
  by (simp_all add: settle_def)

lemma invoke_fields [simp]:
  "activeRequests (invoke f args s) = activeRequests s"
  "heap (invoke f args s) = heap s"
  "ajaxCalls (invoke f args s) = ajaxCalls s"
  "sudoModals (invoke f args s) = sudoModals s"
  "errorObjects (invoke f args s) = errorObjects s"
  by (cases f; simp)+

lemma wrapCallback_fields [simp]:
  "activeRequests (wrapCallback ext rid func cleanup args s) =
     (if cleanup then AList.delete rid (activeRequests s) else activeRequests s)"
  "heap (wrapCallback ext rid func cleanup args s) = heap s"
  "ajaxCalls (wrapCallback ext rid func cleanup args s) = ajaxCalls s"
  "sudoModals (wrapCallback ext rid func cleanup args s) = sudoModals s"
  "errorObjects (wrapCallback ext rid func cleanup args s) = errorObjects s"
  by (auto simp: wrapCallback_def Let_def hasProjectBeenRenamed_def split: option.splits)

lemma wrapCallback_dead:
  "\<not> liveRequest s rid \<Longrightarrow>
     wrapCallback ext rid func cleanup args s =
       (if cleanup then s\<lparr>activeRequests := AList.delete rid (activeRequests s)\<rparr> else s)"
  by (auto simp: wrapCallback_def liveRequest_def Let_def split: option.splits)

lemma liveRequest_log [simp]: "liveRequest (log es s) rid = liveRequest s rid"
  by (simp add: liveRequest_def split: option.splits)

lemma liveRequest_unregistered:
  "map_of (activeRequests s) rid = None \<Longrightarrow> \<not> liveRequest s rid"
  by (simp add: liveRequest_def)


lemma invocations_log:
  "invocations (log es s) = invocations s @ filter isInvoke es"
  by (simp add: invocations_def)

lemma invocations_activeRequests_update [simp]:
  "invocations (s\<lparr>activeRequests := r\<rparr>) = invocations s"
  by (simp add: invocations_def)

lemma handleRequestError_normal:
  "\<not> isSudoRequired ext response \<Longrightarrow>
     handleRequestError ext rid path requestOptions response responseArgs s =
       wrapCallback ext rid (error requestOptions) False (response # responseArgs) s"
  by (simp add: handleRequestError_def isSudoRequired_def Let_def)

lemma log_log: "log es (log fs s) = log (fs @ es) s"
  by (simp add: log_def)

lemma runMicrotasks_Nil: "microtasks s = [] \<Longrightarrow> runMicrotasks s = s"
  by (simp add: runMicrotasks.simps)

lemma runMicrotasks_Cons:
  "microtasks s = (r, v) # ts \<Longrightarrow>
     runMicrotasks s = runMicrotasks (runReaction r v (s\<lparr>microtasks := ts\<rparr>))"
  by (subst runMicrotasks.simps) simp


lemma request_ok:
  assumes "requestBody ext options = Inr b"
      and "param ext (if truthy (query options) then query options else JArr []) = Inr q"
  shows "request ext path options rid s =
     (Inr (length (heap s)),
      s\<lparr>trace := trace s @ [StartSpan b (methodName (effectiveMethod options) @ '' '' @ path),
                            MetricMark (''api-request-start-'' @ rid)],
        errorObjects := Suc (errorObjects s),
        ajaxCalls := ajaxCalls s @
          [\<lparr>completed = False, url = fullUrl (baseUrl s) path q,
            ajax_method = effectiveMethod options,
            ajax_data = b,
            contentType = ''application/json'',
            headers = [(''Accept'', ''application/json; charset=utf-8'')],
            req_id = rid,
            req_path = path,
            req_options = options,
            req_errorObject = errorObjects s,
            req_span = (b, methodName (effectiveMethod options) @ '' '' @ path)\<rparr>],
        heap := heap s @ [\<lparr>alive = True, xhr = length (ajaxCalls s)\<rparr>],
        activeRequests := AList.update rid (length (heap s)) (activeRequests s)\<rparr>)"
  using assms by (simp add: request_def Let_def log_def)

lemma request_Inr_cases:
  assumes "request ext path options rid s = (Inr a, s')"
  obtains b q where "requestBody ext options = Inr b"
    and "param ext (if truthy (query options) then query options else JArr []) = Inr q"
  using assms by (auto simp: request_def Let_def split: sum.splits)

lemma wellFormed_address:
  "wellFormed s \<Longrightarrow> map_of (activeRequests s) k = Some b \<Longrightarrow> b < length (heap s)"
  by (auto simp: wellFormed_def list_all_iff dest!: map_of_SomeD)

lemma wellFormed_xhr:
  "wellFormed s \<Longrightarrow> b < length (heap s) \<Longrightarrow> xhr (heap s ! b) < length (ajaxCalls s)"
  by (auto simp: wellFormed_def list_all_iff)

lemmas model_defs =
  request_def requestBody_def effectiveMethod_def fullUrl_def newClient_def log_def
  markCompleted_def jqDone_def abortedXhr_def abort_def markCancelled_def cancel_def clear_def
  settle_def addReaction_def hasProjectBeenRenamed_def wrapCallback_def
  handleRequestError_def ajaxSuccess_def ajaxError_def ajaxComplete_def requestPromise_def
  retryRequest_def onClose_def liveRequest_def invocations_def isSudoRequired_def
  isProjectMoved_def wellFormed_def firstArg_def statusOf_def Let_def

lemmas example_defs =
  exampleExternals_def throwingExternals_def exampleOptions_def updateOptions_def
  deleteOptions_def sudoResponse_def failedResponse_def

lemma issuedState_eq:
  "issuedState =
     \<lparr>baseUrl = ''/api/0'', activeRequests = [(''r1'', 0)],
      heap = [\<lparr>alive = True, xhr = 0\<rparr>],
      ajaxCalls =
        [\<lparr>completed = False, url = ''/api/0/projects/'', ajax_method = GET,
          ajax_data = JUndefined, contentType = ''application/json'',
          headers = [(''Accept'', ''application/json; charset=utf-8'')],
          req_id = ''r1'', req_path = ''/projects/'',
          req_options = exampleOptions,
          req_errorObject = 0,
          req_span = (JUndefined, ''GET /projects/'')\<rparr>],
      errorObjects = 1, promises = [], microtasks = [], sudoModals = [],
      trace = [StartSpan JUndefined ''GET /projects/'', MetricMark ''api-request-start-r1'']\<rparr>"
  by (simp add: issuedState_def model_defs example_defs)

lemma request_example:
  "request exampleExternals ''/projects/'' exampleOptions ''r1'' (newClient None)
     = (Inr 0, issuedState)"
  by (simp add: issuedState_def model_defs example_defs)

lemma requestBody_callbacks [simp]:
  "requestBody ext (options\<lparr>preservedError := e, success := f, error := g\<rparr>)
     = requestBody ext options"
  by (simp add: requestBody_def effectiveMethod_def)

lemma effectiveMethod_callbacks [simp]:
  "effectiveMethod (options\<lparr>preservedError := e, success := f, error := g\<rparr>)
     = effectiveMethod options"
  by (simp add: effectiveMethod_def)

text \<open>The state after \<^verbatim>\<open>requestPromise\<close> when neither serializer throws.\<close>

lemma requestPromise_ok:
  assumes "requestBody ext options = Inr b"
      and "param ext (if truthy (query options) then query options else JArr []) = Inr q"
  shows "requestPromise ext path includeAllArgs options rid s =
     (length (promises s),
      s\<lparr>trace := trace s @ [StartSpan b (methodName (effectiveMethod options) @ '' '' @ path),
                            MetricMark (''api-request-start-'' @ rid)],
        errorObjects := Suc (Suc (errorObjects s)),
        promises := promises s @ [\<lparr>settled = Pending, reactions = []\<rparr>],
        ajaxCalls := ajaxCalls s @
          [\<lparr>completed = False, url = fullUrl (baseUrl s) path q,
            ajax_method = effectiveMethod options,
            ajax_data = b,
            contentType = ''application/json'',
            headers = [(''Accept'', ''application/json; charset=utf-8'')],
            req_id = rid,
            req_path = path,
            req_options = options
              \<lparr>preservedError := Some (errorObjects s),
               success := Some (PromiseSuccess (length (promises s)) includeAllArgs),
               error := Some (PromiseError (length (promises s)) (errorObjects s)
                                (method' options) path)\<rparr>,
            req_errorObject = Suc (errorObjects s),
            req_span = (b, methodName (effectiveMethod options) @ '' '' @ path)\<rparr>],
        heap := heap s @ [\<lparr>alive = True, xhr = length (ajaxCalls s)\<rparr>],
        activeRequests := AList.update rid (length (heap s)) (activeRequests s)\<rparr>)"
proof -
  let ?opts = "options\<lparr>preservedError := Some (errorObjects s),
               success := Some (PromiseSuccess (length (promises s)) includeAllArgs),
               error := Some (PromiseError (length (promises s)) (errorObjects s)
                                (method' options) path)\<rparr>"
  have b': "requestBody ext ?opts = Inr b" using assms(1) by simp
  have q': "param ext (if truthy (query ?opts) then query ?opts else JArr []) = Inr q"
    using assms(2) by (simp split: if_splits)
  show ?thesis
    by (simp add: requestPromise_def Let_def request_ok [OF b' q'])
qed

lemma handleRequestError_sudo:
  "isSudoRequired ext response \<Longrightarrow>
     handleRequestError ext rid path requestOptions response responseArgs s =
       s\<lparr>sudoModals := sudoModals s @
          [\<lparr>superuser = (get_path response [''responseJSON'', ''detail'', ''code'']
                            = JStr (SUPERUSER_REQUIRED ext)),
            sudo = (get_path response [''responseJSON'', ''detail'', ''code'']
                            = JStr (SUDO_REQUIRED ext)),
            sudo_path = path,
            sudo_requestOptions = requestOptions,
            sudo_response = response\<rparr>]\<rparr>"
  by (simp add: handleRequestError_def isSudoRequired_def Let_def)

text \<open>
  The state after \<^verbatim>\<open>retryRequest\<close> when neither serializer throws: the request issued by
  \<^verbatim>\<open>requestPromise\<close>, and the reaction attached to its promise.
\<close>

lemma retryRequest_ok:
  assumes "k < length (sudoModals s)"
      and "sudo_path (sudoModals s ! k) = path"
      and "sudo_requestOptions (sudoModals s ! k) = ro"
      and "requestBody ext ro = Inr b"
      and "param ext (if truthy (query ro) then query ro else JArr []) = Inr q"
  shows "retryRequest ext k rid s =
      s\<lparr>trace := trace s @ [StartSpan b (methodName (effectiveMethod ro) @ '' '' @ path),
                            MetricMark (''api-request-start-'' @ rid)],
        errorObjects := Suc (Suc (errorObjects s)),
        promises := promises s @
          [\<lparr>settled = Pending, reactions = [Forward (success ro) (error ro)]\<rparr>],
        ajaxCalls := ajaxCalls s @
          [\<lparr>completed = False, url = fullUrl (baseUrl s) path q,
            ajax_method = effectiveMethod ro,
            ajax_data = b,
            contentType = ''application/json'',
            headers = [(''Accept'', ''application/json; charset=utf-8'')],
            req_id = rid,
            req_path = path,
            req_options = ro
              \<lparr>preservedError := Some (errorObjects s),
               success := Some (PromiseSuccess (length (promises s)) False),
               error := Some (PromiseError (length (promises s)) (errorObjects s)
                                (method' ro) path)\<rparr>,
            req_errorObject = Suc (errorObjects s),
            req_span = (b, methodName (effectiveMethod ro) @ '' '' @ path)\<rparr>],
        heap := heap s @ [\<lparr>alive = True, xhr = length (ajaxCalls s)\<rparr>],
        activeRequests := AList.update rid (length (heap s)) (activeRequests s)\<rparr>"
  using assms(1-3)
  by (simp add: retryRequest_def Let_def requestPromise_ok [OF assms(4) assms(5)]
      addReaction_def)

lemma requestPromise_example:
  "requestPromise exampleExternals ''/projects/'' False exampleOptions ''r1'' (newClient None)
     = (0, promiseState)"
  by (simp add: promiseState_def model_defs example_defs)

lemma sudoState_eq:
  "sudoState = issuedState\<lparr>sudoModals :=
     [\<lparr>superuser = False, sudo = True, sudo_path = ''/projects/'',
       sudo_requestOptions = exampleOptions, sudo_response = sudoResponse\<rparr>]\<rparr>"
  by (simp add: sudoState_def issuedState_eq handleRequestError_def Let_def
      exampleExternals_def sudoResponse_def)





lemma invocations_microtasks_update [simp]:
  "invocations (s\<lparr>microtasks := r\<rparr>) = invocations s"
  by (simp add: invocations_def)

subsection \<open>Well-formed states\<close>

text \<open>
  Well-formedness holds in the new client and is kept by every operation, so it holds in
  every state the client reaches.
\<close>

lemma wellFormed_iff:
  "wellFormed s \<longleftrightarrow>
     (\<forall>(k, a) \<in> set (activeRequests s). a < length (heap s))
     \<and> (\<forall>a < length (heap s). xhr (heap s ! a) < length (ajaxCalls s))"
proof -
  have a: "list_all (\<lambda>(k, a). a < length (heap s)) (activeRequests s)
      = (\<forall>(k, a) \<in> set (activeRequests s). a < length (heap s))"
    by (simp add: list_all_iff)
  have b: "list_all (\<lambda>r. xhr r < length (ajaxCalls s)) (heap s)
      = (\<forall>a < length (heap s). xhr (heap s ! a) < length (ajaxCalls s))"
    by (simp add: list_all_length)
  show ?thesis
    by (simp only: wellFormed_def a b)
qed

lemma set_update_subset: "set (AList.update k v al) \<subseteq> insert (k, v) (set al)"
proof (induction al)
  case Nil
  show ?case by simp
next
  case (Cons p ps)
  then show ?case
    by (cases "fst p = k") auto
qed

lemma set_delete_subset: "set (AList.delete k al) \<subseteq> set al"
  by (induction al) auto

lemma wellFormed_newClient: "wellFormed (newClient b)"
  by (simp add: wellFormed_def newClient_def)

lemma wellFormed_frame:
  assumes "wellFormed s"
      and "set (activeRequests t) \<subseteq> set (activeRequests s)"
      and "length (heap t) = length (heap s)"
      and "\<And>a. xhr (heap t ! a) = xhr (heap s ! a)"
      and "length (ajaxCalls t) = length (ajaxCalls s)"
  shows "wellFormed t"
  using assms by (fastforce simp: wellFormed_iff)

lemma wellFormed_log [simp]: "wellFormed (log es s) = wellFormed s"
  by (simp add: wellFormed_def)

lemma wellFormed_invoke: "wellFormed s \<Longrightarrow> wellFormed (invoke f args s)"
  by (rule wellFormed_frame [where s = s]) simp_all

lemma wellFormed_settle: "wellFormed s \<Longrightarrow> wellFormed (settle p v s)"
  by (rule wellFormed_frame [where s = s]) simp_all

lemma wellFormed_wrapCallback:
  "wellFormed s \<Longrightarrow> wellFormed (wrapCallback ext rid func cleanup args s)"
  by (rule wellFormed_frame [where s = s]) (simp_all add: set_delete_subset)

lemma wellFormed_sudoModals [simp]: "wellFormed (s\<lparr>sudoModals := ms\<rparr>) = wellFormed s"
  by (simp add: wellFormed_def)

lemma wellFormed_handleRequestError:
  "wellFormed s \<Longrightarrow>
     wellFormed (handleRequestError ext rid path requestOptions response responseArgs s)"
  by (simp add: handleRequestError_def Let_def wellFormed_wrapCallback)

lemma wellFormed_request:
  assumes "wellFormed s"
  shows "wellFormed (snd (request ext path options rid s))"
proof (cases "requestBody ext options")
  case (Inl err)
  with assms show ?thesis by (simp add: request_def)
next
  case b: (Inr b)
  show ?thesis
  proof (cases "param ext (if truthy (query options) then query options else JArr [])")
    case (Inl err)
    with assms b show ?thesis by (simp add: request_def Let_def)
  next
    case (Inr q)
    have w: "\<forall>(k, a) \<in> set (activeRequests s). a < length (heap s)"
      "\<forall>a < length (heap s). xhr (heap s ! a) < length (ajaxCalls s)"
      using assms by (simp_all add: wellFormed_iff)
    have r: "\<forall>(k, a) \<in> set (AList.update rid (length (heap s)) (activeRequests s)).
        a < Suc (length (heap s))"
      using w(1) set_update_subset [of rid "length (heap s)" "activeRequests s"]
      by (auto simp: less_Suc_eq)
    have h: "\<forall>a < Suc (length (heap s)).
        xhr ((heap s @ [\<lparr>alive = True, xhr = length (ajaxCalls s)\<rparr>]) ! a)
          < Suc (length (ajaxCalls s))"
      using w(2) by (auto simp: nth_append less_Suc_eq)
    show ?thesis
      using r h by (simp add: request_ok [OF b Inr] wellFormed_iff)
  qed
qed

lemma wellFormed_ajaxSuccess:
  "wellFormed s \<Longrightarrow> wellFormed (ajaxSuccess ext x d textStatus jqxhr s)"
  by (simp add: ajaxSuccess_def Let_def wellFormed_wrapCallback split: option.splits)

lemma wellFormed_ajaxError:
  "wellFormed s \<Longrightarrow> wellFormed (ajaxError ext x resp textStatus errorThrown s)"
  by (simp add: ajaxError_def Let_def wellFormed_handleRequestError)

lemma wellFormed_ajaxComplete:
  "wellFormed s \<Longrightarrow> wellFormed (ajaxComplete ext x jqxhr textStatus s)"
  by (simp add: ajaxComplete_def Let_def wellFormed_wrapCallback)

lemma wellFormed_promises [simp]:
  "wellFormed (s\<lparr>promises := ps\<rparr>) = wellFormed s"
  "wellFormed (s\<lparr>microtasks := ms\<rparr>) = wellFormed s"
  "wellFormed (s\<lparr>errorObjects := n\<rparr>) = wellFormed s"
  by (simp_all add: wellFormed_def)

lemma wellFormed_requestPromise:
  assumes "wellFormed s"
  shows "wellFormed (snd (requestPromise ext path includeAllArgs options rid s))"
proof -
  let ?s1 = "s\<lparr>errorObjects := Suc (errorObjects s),
                 promises := promises s @ [\<lparr>settled = Pending, reactions = []\<rparr>]\<rparr>"
  let ?opts = "options\<lparr>preservedError := Some (errorObjects s),
               success := Some (PromiseSuccess (length (promises s)) includeAllArgs),
               error := Some (PromiseError (length (promises s)) (errorObjects s)
                                (method' options) path)\<rparr>"
  obtain r s2 where r: "request ext path ?opts rid ?s1 = (r, s2)"
    by (cases "request ext path ?opts rid ?s1")
  have "wellFormed ?s1" using assms by simp
  from wellFormed_request [OF this, of ext path ?opts rid] have "wellFormed s2"
    by (simp add: r)
  then show ?thesis
    by (cases r) (simp_all add: requestPromise_def Let_def r wellFormed_settle)
qed

lemma wellFormed_addReaction: "wellFormed s \<Longrightarrow> wellFormed (addReaction p r s)"
  by (simp add: addReaction_def split: settlement.splits)

lemma wellFormed_retryRequest: "wellFormed s \<Longrightarrow> wellFormed (retryRequest ext k rid s)"
  using wellFormed_requestPromise [of s ext "sudo_path (sudoModals s ! k)" False
      "sudo_requestOptions (sudoModals s ! k)" rid]
  by (cases "requestPromise ext (sudo_path (sudoModals s ! k)) False
      (sudo_requestOptions (sudoModals s ! k)) rid s")
    (simp add: retryRequest_def Let_def wellFormed_addReaction)

lemma wellFormed_onClose: "wellFormed s \<Longrightarrow> wellFormed (onClose k s)"
  by (simp add: onClose_def Let_def wellFormed_invoke split: option.splits)

lemma wellFormed_runReaction: "wellFormed s \<Longrightarrow> wellFormed (runReaction r v s)"
  by (cases r; cases v) (simp_all add: wellFormed_invoke split: option.splits)

lemma wellFormed_runMicrotasks: "wellFormed s \<Longrightarrow> wellFormed (runMicrotasks s)"
proof (induction s rule: runMicrotasks.induct)
  case (1 s)
  show ?case
  proof (cases "microtasks s")
    case Nil
    with 1 show ?thesis by (simp add: runMicrotasks_Nil)
  next
    case (Cons x ts)
    obtain r v where x: "x = (r, v)" by (cases x)
    have "wellFormed (runReaction r v (s\<lparr>microtasks := ts\<rparr>))"
      using "1.prems" by (simp add: wellFormed_runReaction)
    with "1.IH" [OF Cons x [symmetric]] show ?thesis
      by (simp add: runMicrotasks_Cons [OF Cons [unfolded x]])
  qed
qed

subsection \<open>The transport and cancellation\<close>

lemma noAbortOf_iff:
  "noAbortOf x s t \<longleftrightarrow> (\<exists>es. trace t = trace s @ es \<and> XhrAbort x \<notin> set es)"
proof
  assume "noAbortOf x s t"
  then have "trace t = trace s @ drop (length (trace s)) (trace t)"
    and "XhrAbort x \<notin> set (drop (length (trace s)) (trace t))"
    by (simp_all add: noAbortOf_def) (metis append_take_drop_id)
  then show "\<exists>es. trace t = trace s @ es \<and> XhrAbort x \<notin> set es"
    by blast
next
  assume "\<exists>es. trace t = trace s @ es \<and> XhrAbort x \<notin> set es"
  then show "noAbortOf x s t"
    by (auto simp: noAbortOf_def)
qed

lemma noAbortOf_refl: "trace t = trace s \<Longrightarrow> noAbortOf x s t"
  by (simp add: noAbortOf_def)

lemma noAbortOf_trans: "noAbortOf x s t \<Longrightarrow> noAbortOf x t u \<Longrightarrow> noAbortOf x s u"
  by (auto simp: noAbortOf_iff)

lemma noAbortOf_log: "XhrAbort x \<notin> set es \<Longrightarrow> noAbortOf x s (log es s)"
  by (simp add: noAbortOf_iff)

lemma noAbortOf_invoke: "noAbortOf x s (invoke f args s)"
  by (cases f) (simp_all add: noAbortOf_iff)

lemma trace_invoke:
  "trace (invoke f args s) =
     trace s @ (case f of UserCallback n \<Rightarrow> [Invoke n args] | PromiseSuccess p b \<Rightarrow> []
                | PromiseError p e m path \<Rightarrow> [])"
  by (cases f) simp_all

lemma noAbortOf_wrapCallback: "noAbortOf x s (wrapCallback ext rid func cleanup args s)"
  unfolding noAbortOf_iff
  by (auto simp: wrapCallback_def Let_def hasProjectBeenRenamed_def trace_invoke
      split: option.splits callback.splits)

lemma noAbortOf_handleRequestError:
  "noAbortOf x s (handleRequestError ext rid path requestOptions response responseArgs s)"
  by (simp add: handleRequestError_def Let_def noAbortOf_wrapCallback noAbortOf_refl)

lemma noAbortOf_ajaxSuccess: "noAbortOf x s (ajaxSuccess ext y d textStatus jqxhr s)"
  by (auto simp: ajaxSuccess_def Let_def noAbortOf_refl noAbortOf_log
      intro: noAbortOf_trans [OF noAbortOf_log noAbortOf_wrapCallback] split: option.splits)

lemma noAbortOf_ajaxError: "noAbortOf x s (ajaxError ext y resp textStatus errorThrown s)"
  by (auto simp: ajaxError_def Let_def noAbortOf_refl log_log noAbortOf_log
      intro: noAbortOf_trans [OF noAbortOf_log noAbortOf_handleRequestError])

lemma noAbortOf_ajaxComplete: "noAbortOf x s (ajaxComplete ext y jqxhr textStatus s)"
  by (auto simp: ajaxComplete_def Let_def noAbortOf_refl
      intro: noAbortOf_trans [OF noAbortOf_log noAbortOf_wrapCallback])

lemma markCompleted_fields [simp]:
  "trace (markCompleted x s) = trace s"
  "activeRequests (markCompleted x s) = activeRequests s"
  "heap (markCompleted x s) = heap s"
  "promises (markCompleted x s) = promises s"
  "microtasks (markCompleted x s) = microtasks s"
  "sudoModals (markCompleted x s) = sudoModals s"
  "errorObjects (markCompleted x s) = errorObjects s"
  "length (ajaxCalls (markCompleted x s)) = length (ajaxCalls s)"
  by (simp_all add: markCompleted_def)

lemma markCancelled_fields [simp]:
  "trace (markCancelled a s) = trace s"
  "activeRequests (markCancelled a s) = activeRequests s"
  "ajaxCalls (markCancelled a s) = ajaxCalls s"
  "promises (markCancelled a s) = promises s"
  "microtasks (markCancelled a s) = microtasks s"
  "sudoModals (markCancelled a s) = sudoModals s"
  "errorObjects (markCancelled a s) = errorObjects s"
  "length (heap (markCancelled a s)) = length (heap s)"
  by (simp_all add: markCancelled_def)

lemma markCancelled_xhr [simp]: "xhr (heap (markCancelled a s) ! b) = xhr (heap s ! b)"
  by (cases "a < length (heap s)") (simp_all add: markCancelled_def nth_list_update list_update_beyond not_less)

lemma handleRequestError_fields [simp]:
  "heap (handleRequestError ext rid path ro response responseArgs s) = heap s"
  "ajaxCalls (handleRequestError ext rid path ro response responseArgs s) = ajaxCalls s"
  "activeRequests (handleRequestError ext rid path ro response responseArgs s)
     = activeRequests s"
  by (simp_all add: handleRequestError_def Let_def)

lemma handler_fields [simp]:
  "heap (ajaxSuccess ext y d textStatus jqxhr s) = heap s"
  "ajaxCalls (ajaxSuccess ext y d textStatus jqxhr s) = ajaxCalls s"
  "activeRequests (ajaxSuccess ext y d textStatus jqxhr s) = activeRequests s"
  "heap (ajaxError ext y resp textStatus errorThrown s) = heap s"
  "ajaxCalls (ajaxError ext y resp textStatus errorThrown s) = ajaxCalls s"
  "activeRequests (ajaxError ext y resp textStatus errorThrown s) = activeRequests s"
  "heap (ajaxComplete ext y jqxhr textStatus s) = heap s"
  "ajaxCalls (ajaxComplete ext y jqxhr textStatus s) = ajaxCalls s"
  "activeRequests (ajaxComplete ext y jqxhr textStatus s) =
     (if y < length (ajaxCalls s) then AList.delete (req_id (ajaxCalls s ! y)) (activeRequests s)
      else activeRequests s)"
  by (simp_all add: ajaxSuccess_def ajaxError_def ajaxComplete_def Let_def split: option.splits)

lemma noAbortOf_jqDone: "noAbortOf x s (jqDone ext y r s)"
proof -
  have m: "noAbortOf x s (markCompleted y s)"
    by (simp add: noAbortOf_refl)
  show ?thesis
    by (cases r)
      (auto simp: jqDone_def noAbortOf_refl
        intro: noAbortOf_trans [OF noAbortOf_trans [OF m noAbortOf_ajaxSuccess] noAbortOf_ajaxComplete]
          noAbortOf_trans [OF noAbortOf_trans [OF m noAbortOf_ajaxError] noAbortOf_ajaxComplete])
qed

lemma jqDone_fields [simp]:
  "heap (jqDone ext y r s) = heap s"
  "length (ajaxCalls (jqDone ext y r s)) = length (ajaxCalls s)"
  by (cases r; simp add: jqDone_def)+

lemma jqDone_registry:
  "map_of (activeRequests (jqDone ext y r s)) k = Some b \<Longrightarrow> map_of (activeRequests s) k = Some b"
  by (cases r) (auto simp: jqDone_def delete_conv' split: if_splits)

lemma jqDone_completed: "completed (ajaxCalls s ! y) \<Longrightarrow> jqDone ext y r s = s"
  by (simp add: jqDone_def)

lemma abort_fields [simp]:
  "heap (abort ext y s) = heap s"
  "length (ajaxCalls (abort ext y s)) = length (ajaxCalls s)"
  by (simp_all add: abort_def)

lemma cancel_heap:
  "heap (cancel ext a s) =
     (if a < length (heap s) then (heap s)[a := (heap s ! a)\<lparr>alive := False\<rparr>] else heap s)"
  by (simp add: cancel_def markCancelled_def)

lemma cancel_fields [simp]:
  "length (heap (cancel ext a s)) = length (heap s)"
  "xhr (heap (cancel ext a s) ! b) = xhr (heap s ! b)"
  "length (ajaxCalls (cancel ext a s)) = length (ajaxCalls s)"
  by (auto simp: cancel_heap nth_list_update cancel_def)

lemma cancel_other: "a \<noteq> b \<Longrightarrow> heap (cancel ext a s) ! b = heap s ! b"
  by (simp add: cancel_heap)

lemma cancel_dead: "a < length (heap s) \<Longrightarrow> \<not> alive (heap (cancel ext a s) ! a)"
  by (simp add: cancel_heap)

lemma cancel_registry:
  "map_of (activeRequests (cancel ext a s)) k = Some b \<Longrightarrow> map_of (activeRequests s) k = Some b"
  by (auto simp: cancel_def abort_def dest!: jqDone_registry split: if_splits)

lemma cancel_noAbortOf:
  assumes "xhr (heap s ! a) \<noteq> x"
  shows "noAbortOf x s (cancel ext a s)"
proof (cases "a < length (heap s)")
  case True
  let ?s1 = "log [XhrAbort (xhr (heap s ! a))] (markCancelled a s)"
  have 1: "noAbortOf x s ?s1"
    using assms by (simp add: noAbortOf_iff)
  have 2: "noAbortOf x ?s1 (abort ext (xhr (heap s ! a)) ?s1)"
    unfolding abort_def by (rule noAbortOf_jqDone)
  have 3: "noAbortOf x (abort ext (xhr (heap s ! a)) ?s1)
      (log [Metric ''app.api.request-abort'' 1] (abort ext (xhr (heap s ! a)) ?s1))"
    by (rule noAbortOf_log) simp
  from noAbortOf_trans [OF noAbortOf_trans [OF 1 2] 3] True show ?thesis
    by (simp add: cancel_def)
next
  case False
  then show ?thesis by (simp add: cancel_def noAbortOf_refl)
qed

lemma clear_loop:
  assumes "\<forall>k b. map_of (activeRequests t) k = Some b \<longrightarrow> b \<noteq> a \<and> xhr (heap t ! b) \<noteq> x"
  shows "heap (foldl (\<lambda>t k. case map_of (activeRequests t) k of None \<Rightarrow> t
                              | Some b \<Rightarrow> cancel ext b t) t ks) ! a = heap t ! a
       \<and> noAbortOf x t (foldl (\<lambda>t k. case map_of (activeRequests t) k of None \<Rightarrow> t
                              | Some b \<Rightarrow> cancel ext b t) t ks)"
  using assms
proof (induction ks arbitrary: t)
  case Nil
  then show ?case by (simp add: noAbortOf_refl)
next
  case (Cons k ks)
  let ?F = "\<lambda>t k. case map_of (activeRequests t) k of None \<Rightarrow> t | Some b \<Rightarrow> cancel ext b t"
  let ?t = "?F t k"
  have reg: "map_of (activeRequests ?t) j = Some b \<Longrightarrow> map_of (activeRequests t) j = Some b"
    for j b
    by (auto split: option.splits dest: cancel_registry)
  have xs: "xhr (heap ?t ! b) = xhr (heap t ! b)" for b
    by (simp split: option.splits)
  have h: "heap ?t ! a = heap t ! a"
    using Cons.prems by (auto split: option.splits simp: cancel_other)
  have tr: "noAbortOf x t ?t"
    using Cons.prems by (auto split: option.splits intro: cancel_noAbortOf noAbortOf_refl)
  have "\<forall>k b. map_of (activeRequests ?t) k = Some b \<longrightarrow> b \<noteq> a \<and> xhr (heap ?t ! b) \<noteq> x"
    using Cons.prems reg by (simp only: xs) blast
  from Cons.IH [OF this] h tr show ?case
    by (auto intro: noAbortOf_trans)
qed

lemma clear_spares:
  assumes "\<forall>k b. map_of (activeRequests t) k = Some b \<longrightarrow> b \<noteq> a \<and> xhr (heap t ! b) \<noteq> x"
  shows "heap (clear ext t) ! a = heap t ! a
       \<and> XhrAbort x \<notin> set (drop (length (trace t)) (trace (clear ext t)))"
  using clear_loop [OF assms, of ext "map fst (activeRequests t)"]
  by (simp add: clear_def noAbortOf_def)

lemma wellFormed_markCompleted [simp]: "wellFormed (markCompleted x s) = wellFormed s"
  by (simp add: wellFormed_def)

lemma wellFormed_markCancelled: "wellFormed s \<Longrightarrow> wellFormed (markCancelled a s)"
  by (rule wellFormed_frame [where s = s]) simp_all

lemma wellFormed_jqDone: "wellFormed s \<Longrightarrow> wellFormed (jqDone ext x r s)"
  by (cases r)
    (simp_all add: jqDone_def wellFormed_ajaxSuccess wellFormed_ajaxError wellFormed_ajaxComplete)

lemma wellFormed_cancel: "wellFormed s \<Longrightarrow> wellFormed (cancel ext a s)"
  by (simp add: cancel_def abort_def wellFormed_jqDone wellFormed_markCancelled)

lemma wellFormed_clear_loop:
  "wellFormed t \<Longrightarrow>
     wellFormed (foldl (\<lambda>t k. case map_of (activeRequests t) k of None \<Rightarrow> t
                              | Some b \<Rightarrow> cancel ext b t) t ks)"
proof (induction ks arbitrary: t)
  case Nil
  then show ?case by simp
next
  case (Cons k ks)
  have "wellFormed (case map_of (activeRequests t) k of None \<Rightarrow> t | Some b \<Rightarrow> cancel ext b t)"
    using Cons.prems by (simp add: wellFormed_cancel split: option.splits)
  from Cons.IH [OF this] show ?case by simp
qed

lemma wellFormed_clear: "wellFormed s \<Longrightarrow> wellFormed (clear ext s)"
  by (simp add: clear_def wellFormed_clear_loop)

text \<open>The example states, computed.\<close>

lemma cancelledState_eq:
  "cancelledState = issuedState
     \<lparr>activeRequests := [],
      heap := [\<lparr>alive = False, xhr = 0\<rparr>],
      ajaxCalls := [(ajaxCalls issuedState ! 0)\<lparr>completed := True\<rparr>],
      trace := [StartSpan JUndefined ''GET /projects/'', MetricMark ''api-request-start-r1'',
                XhrAbort 0,
                MetricMeasure ''app.api.request-error'' ''api-request-start-r1'' (JNum 0),
                CaptureException (Some ''warning'') [(''http.statusCode'', JNum 0)] []
                  (JRequestError abortedXhr 0 (Some GET) ''/projects/''),
                FinishSpan JUndefined ''GET /projects/'',
                Metric ''app.api.request-abort'' 1]\<rparr>"
  by (simp add: cancelledState_def issuedState_eq model_defs exampleExternals_def
      exampleOptions_def)

lemma abortingState_eq:
  "abortingState = issuedState
     \<lparr>heap := [\<lparr>alive = False, xhr = 0\<rparr>],
      ajaxCalls := [(ajaxCalls issuedState ! 0)\<lparr>completed := True\<rparr>],
      trace := [StartSpan JUndefined ''GET /projects/'', MetricMark ''api-request-start-r1'',
                XhrAbort 0,
                MetricMeasure ''app.api.request-error'' ''api-request-start-r1'' (JNum 0),
                CaptureException (Some ''warning'') [(''http.statusCode'', JNum 0)] []
                  (JRequestError abortedXhr 0 (Some GET) ''/projects/'')]\<rparr>"
  by (simp add: abortingState_def issuedState_eq model_defs exampleExternals_def
      exampleOptions_def)

lemma cancel_example:
  "cancel exampleExternals 0 issuedState =
     log [Metric ''app.api.request-abort'' 1]
       (ajaxComplete exampleExternals 0 abortedXhr (JStr ''abort'') abortingState)"
  by (simp add: abortingState_def cancel_def abort_def jqDone_def issuedState_eq)

lemma closedState_eq:
  "closedState = issuedState
     \<lparr>activeRequests := [],
      heap := [\<lparr>alive = False, xhr = 0\<rparr>],
      ajaxCalls := [(ajaxCalls issuedState ! 0)\<lparr>completed := True\<rparr>],
      sudoModals := [\<lparr>superuser = False, sudo = True, sudo_path = ''/projects/'',
                      sudo_requestOptions = exampleOptions, sudo_response = sudoResponse\<rparr>],
      trace := [StartSpan JUndefined ''GET /projects/'', MetricMark ''api-request-start-r1'',
                MetricMeasure ''app.api.request-error'' ''api-request-start-r1'' (JNum 401),
                CaptureException (Some ''warning'') [(''http.statusCode'', JNum 401)] []
                  (JRequestError sudoResponse 0 (Some GET) ''/projects/''),
                FinishSpan JUndefined ''GET /projects/'',
                Invoke 2 [sudoResponse, JStr ''error''],
                XhrAbort 0, Metric ''app.api.request-abort'' 1]\<rparr>"
  by (simp add: closedState_def issuedState_eq model_defs exampleExternals_def
      exampleOptions_def sudoResponse_def)

lemma abortedXhr_facts [simp]:
  "\<not> isNil abortedXhr"
  "\<not> isSudoRequired ext abortedXhr"
  "statusOf abortedXhr = JNum 0"
  "get_path abortedXhr [''status''] = JNum 0"
  by (simp_all add: abortedXhr_def isSudoRequired_def statusOf_def)

lemma liveRequest_markCompleted [simp]:
  "liveRequest (markCompleted x s) rid = liveRequest s rid"
  by (simp add: liveRequest_def split: option.splits)

lemma request_inFlight:
  assumes "request ext path options rid s = (Inr a, s1)"
  shows "inFlight s1 rid a"
proof -
  from assms obtain b q where b: "requestBody ext options = Inr b"
    and q: "param ext (if truthy (query options) then query options else JArr []) = Inr q"
    by (rule request_Inr_cases)
  from assms [unfolded request_ok [OF b q]] show ?thesis
    by (auto simp: inFlight_def update_conv')
qed

text \<open>
  What \<^verbatim>\<open>cancel()\<close> does to a request in flight: the handlers that run inside the abort find
  the handle not alive, so they add their reports to the trace, the complete handler
  removes the identifier, and nothing else changes.
\<close>

lemma cancel_inFlight:
  assumes "inFlight t rid a"
  shows "invocations (cancel ext a t) = invocations t"
    and "promises (cancel ext a t) = promises t"
    and "microtasks (cancel ext a t) = microtasks t"
    and "sudoModals (cancel ext a t) = sudoModals t"
    and "map_of (activeRequests (cancel ext a t)) rid = None"
    and "completed (ajaxCalls (cancel ext a t) ! xhr (heap t ! a))"
proof -
  let ?x = "xhr (heap t ! a)"
  let ?s1 = "log [XhrAbort ?x] (markCancelled a t)"
  let ?s2 = "markCompleted ?x ?s1"
  have a: "a < length (heap t)" and x: "?x < length (ajaxCalls t)"
    and nc: "\<not> completed (ajaxCalls t ! ?x)" and rid: "req_id (ajaxCalls t ! ?x) = rid"
    and reg: "map_of (activeRequests t) rid = Some a"
    using assms by (simp_all add: inFlight_def)
  have rid2: "req_id (ajaxCalls ?s2 ! ?x) = rid"
    using x rid by (simp add: markCompleted_def)
  have x2: "?x < length (ajaxCalls ?s2)"
    using x by simp
  have dead: "\<not> liveRequest ?s2 rid"
    using a reg by (simp add: liveRequest_def markCancelled_def)
  let ?s3 = "ajaxError ext ?x abortedXhr (JStr ''abort'') (JStr ''abort'') ?s2"
  have e: "?s3 = log [MetricMeasure ''app.api.request-error'' (''api-request-start-'' @ rid)
                       (JNum 0),
                     CaptureException (Some ''warning'') [(''http.statusCode'', JNum 0)] []
                       (JRequestError abortedXhr
                          (case preservedError (req_options (ajaxCalls ?s2 ! ?x)) of
                             Some e \<Rightarrow> e | None \<Rightarrow> req_errorObject (ajaxCalls ?s2 ! ?x))
                          (Some (ajax_method (ajaxCalls ?s2 ! ?x)))
                          (req_path (ajaxCalls ?s2 ! ?x)))] ?s2"
    using x2 dead
    by (simp add: ajaxError_def Let_def rid2 handleRequestError_normal wrapCallback_dead log_log
        del: markCompleted_fields)
  have dead3: "\<not> liveRequest ?s3 rid"
    using dead by (simp add: e del: markCompleted_fields)
  have x3: "?x < length (ajaxCalls ?s3)" and rid3: "req_id (ajaxCalls ?s3 ! ?x) = rid"
    using x2 rid2 by simp_all
  let ?s4 = "ajaxComplete ext ?x abortedXhr (JStr ''abort'') ?s3"
  have c: "?s4 = (log [FinishSpan (fst (req_span (ajaxCalls ?s3 ! ?x)))
                         (snd (req_span (ajaxCalls ?s3 ! ?x)))] ?s3)
                  \<lparr>activeRequests := AList.delete rid (activeRequests ?s3)\<rparr>"
    using x3 dead3
    by (simp add: ajaxComplete_def Let_def rid2 rid3 wrapCallback_dead)
  have k: "cancel ext a t = log [Metric ''app.api.request-abort'' 1] ?s4"
    using a x nc by (simp add: cancel_def abort_def jqDone_def)
  show "invocations (cancel ext a t) = invocations t"
    by (subst k, subst c) (simp add: e invocations_def)
  show "promises (cancel ext a t) = promises t"
    by (subst k, subst c) (simp add: e)
  show "microtasks (cancel ext a t) = microtasks t"
    by (subst k, subst c) (simp add: e)
  show "sudoModals (cancel ext a t) = sudoModals t"
    by (subst k, subst c) (simp add: e)
  show "map_of (activeRequests (cancel ext a t)) rid = None"
    by (subst k, subst c) (simp add: delete_conv')
  show "completed (ajaxCalls (cancel ext a t) ! xhr (heap t ! a))"
    using x by (subst k, subst c) (simp add: markCompleted_def)
qed

lemma deliveries_completed:
  "completed (ajaxCalls s ! x) \<Longrightarrow> foldl (\<lambda>u r. jqDone ext x r u) s rs = s"
  by (induction rs) (simp_all add: jqDone_completed)

section \<open>Properties of paramsToQueryArgs\<close>

lemma map_of_copyDateProp:
  "map_of (copyDateProp params p pr) =
     (if \<not> isNil (getProp params pr)
      then (map_of p)((if pr = ''period'' then ''statsPeriod'' else pr) \<mapsto> getProp params pr)
      else map_of p)"
  by (simp add: copyDateProp_def update_conv')

lemma map_of_copyDates:
  "map_of (foldl (copyDateProp params) p [''start'', ''end'', ''period'', ''utc'']) k =
     (if k \<in> set dateKeys
      then (if isNil (getProp params (dateSource k)) then map_of p k
            else Some (getProp params (dateSource k)))
      else map_of p k)"
  by (simp add: map_of_copyDateProp dateKeys_def dateSource_def)

lemma map_of_paramsToQueryArgs_date:
  assumes "k \<in> set dateKeys"
  shows "map_of (paramsToQueryArgs params) k =
     (if truthy (getProp params ''query'') \<and> \<not> isNil (getProp params (dateSource k))
      then Some (getProp params (dateSource k)) else None)"
proof -
  have k: "k \<noteq> ''id''" "k \<noteq> ''query''" "k \<noteq> ''environment''" "k \<noteq> ''project''"
    using assms by (auto simp: dateKeys_def)
  show ?thesis
    using assms k
    by (simp add: paramsToQueryArgs_def Let_def map_of_copyDates update_conv' del: foldl_Cons foldl_Nil)
qed

lemma map_of_paramsToQueryArgs_other:
  assumes "k \<notin> set dateKeys"
  shows "map_of (paramsToQueryArgs params) k =
     (if k = ''project'' \<and> truthy (getProp params ''project'')
           \<and> truthy (js_length (getProp params ''project''))
      then Some (getProp params ''project'')
      else if k = ''environment'' \<and> truthy (getProp params ''query'')
           \<and> \<not> isNil (getProp params ''environment'')
      then Some (getProp params ''environment'')
      else if k = ''id'' \<and> truthy (getProp params ''itemIds'')
      then Some (getProp params ''itemIds'')
      else if k = ''query'' \<and> \<not> truthy (getProp params ''itemIds'')
           \<and> truthy (getProp params ''query'')
      then Some (getProp params ''query'')
      else None)"
proof -
  define p1 where "p1 =
    (let p0 = (if truthy (getProp params ''itemIds'') then [(''id'', getProp params ''itemIds'')]
               else if truthy (getProp params ''query'') then [(''query'', getProp params ''query'')]
               else [])
     in if truthy (getProp params ''query'') \<and> \<not> isNil (getProp params ''environment'')
        then AList.update ''environment'' (getProp params ''environment'') p0
        else p0)"
  define p2 where "p2 =
    (if truthy (getProp params ''project'') \<and> truthy (js_length (getProp params ''project''))
     then AList.update ''project'' (getProp params ''project'') p1
     else p1)"
  have dates: "map_of (foldl (copyDateProp params) p2 [''start'', ''end'', ''period'', ''utc'']) k
      = map_of p2 k"
    using assms by (simp only: map_of_copyDates if_False)
  have "paramsToQueryArgs params =
      (if truthy (getProp params ''query'')
       then foldl (copyDateProp params) p2 [''start'', ''end'', ''period'', ''utc'']
       else p2)"
    by (simp only: paramsToQueryArgs_def p1_def p2_def Let_def)
  then have "map_of (paramsToQueryArgs params) k = map_of p2 k"
    using dates by (cases "truthy (getProp params ''query'')") (simp_all only: if_True if_False)
  then show ?thesis
    by (simp add: p1_def p2_def Let_def update_conv')
qed

text \<open>
  Claim C1, as amended. For every parameter bag whose \<^verbatim>\<open>itemIds\<close> is a non-empty list,
  the result carries exactly that list under \<^verbatim>\<open>id\<close> and has no \<^verbatim>\<open>query\<close> key. The date
  keys \<^verbatim>\<open>start\<close>, \<^verbatim>\<open>end\<close>, \<^verbatim>\<open>statsPeriod\<close>, \<^verbatim>\<open>utc\<close> are guarded by the truthiness of
  \<^verbatim>\<open>params.query\<close>, not by the branch taken for the filter: each is present exactly when
  the bag also has a non-empty query and the corresponding input field is not
  null/undefined, and absent otherwise.
\<close>

theorem paramsToQueryArgs_itemIds:
  assumes "getProp params ''itemIds'' = JArr ids" and "ids \<noteq> []"
  shows "map_of (paramsToQueryArgs params) ''id'' = Some (JArr ids)
       \<and> map_of (paramsToQueryArgs params) ''query'' = None
       \<and> (\<forall>k \<in> set dateKeys. map_of (paramsToQueryArgs params) k =
            (if truthy (getProp params ''query'') \<and> \<not> isNil (getProp params (dateSource k))
             then Some (getProp params (dateSource k)) else None))"
proof -
  have nd: "''id'' \<notin> set dateKeys" "''query'' \<notin> set dateKeys"
    by (simp_all add: dateKeys_def)
  have "map_of (paramsToQueryArgs params) ''id'' = Some (JArr ids)"
    using assms by (simp add: map_of_paramsToQueryArgs_other [OF nd(1)])
  moreover have "map_of (paramsToQueryArgs params) ''query'' = None"
    using assms by (simp add: map_of_paramsToQueryArgs_other [OF nd(2)])
  ultimately show ?thesis
    by (simp add: map_of_paramsToQueryArgs_date)
qed

theorem paramsToQueryArgs_itemIds_witness:
  "getProp [(''itemIds'', JArr [JNum 1, JNum 2]), (''start'', JStr ''2019-06-01'')] ''itemIds''
      = JArr [JNum 1, JNum 2]
   \<and> map_of (paramsToQueryArgs
        [(''itemIds'', JArr [JNum 1, JNum 2]), (''start'', JStr ''2019-06-01'')]) ''id''
      = Some (JArr [JNum 1, JNum 2])
   \<and> map_of (paramsToQueryArgs
        [(''itemIds'', JArr [JNum 1, JNum 2]), (''start'', JStr ''2019-06-01'')]) ''start''
      = None"
proof -
  have h: "getProp [(''itemIds'', JArr [JNum 1, JNum 2]), (''start'', JStr ''2019-06-01'')]
      ''itemIds'' = JArr [JNum 1, JNum 2]"
    by (simp add: getProp_def)
  have n: "[JNum 1, JNum 2] \<noteq> []" by simp
  show ?thesis
    using h paramsToQueryArgs_itemIds [OF h n]
    by (simp add: dateKeys_def dateSource_def getProp_def)
qed

text \<open>
  Claim C1 as stated fails: a bag with a non-empty \<^verbatim>\<open>itemIds\<close> list, a non-empty query
  string and a \<^verbatim>\<open>start\<close> value yields a result that contains the date field \<^verbatim>\<open>start\<close>.
\<close>

theorem paramsToQueryArgs_itemIds_counterexample:
  "getProp [(''itemIds'', JArr [JNum 1, JNum 2]), (''query'', JStr ''is:unresolved''),
            (''start'', JStr ''2019-06-01'')] ''itemIds'' = JArr [JNum 1, JNum 2]
   \<and> [JNum 1, JNum 2] \<noteq> []
   \<and> map_of (paramsToQueryArgs
        [(''itemIds'', JArr [JNum 1, JNum 2]), (''query'', JStr ''is:unresolved''),
         (''start'', JStr ''2019-06-01'')]) ''start'' = Some (JStr ''2019-06-01'')"
  by (simp add: paramsToQueryArgs_def copyDateProp_def getProp_def)

text \<open>
  Claim C7. For every parameter bag with no \<^verbatim>\<open>itemIds\<close> and with \<^verbatim>\<open>query\<close> set (a
  non-empty string: the source tests \<^verbatim>\<open>params.query\<close> for truthiness), the result holds
  that query under the key \<^verbatim>\<open>query\<close>, and each of the date keys \<^verbatim>\<open>start\<close>, \<^verbatim>\<open>end\<close>,
  \<^verbatim>\<open>statsPeriod\<close> (from the input field \<^verbatim>\<open>period\<close>) and \<^verbatim>\<open>utc\<close> is in the result if and
  only if the corresponding input field is not null/undefined, with the input's value.
\<close>

theorem paramsToQueryArgs_query:
  assumes "\<not> truthy (getProp params ''itemIds'')" and "truthy (getProp params ''query'')"
  shows "map_of (paramsToQueryArgs params) ''query'' = Some (getProp params ''query'')
       \<and> (\<forall>k \<in> set dateKeys.
            (map_of (paramsToQueryArgs params) k \<noteq> None)
              = (\<not> isNil (getProp params (dateSource k)))
          \<and> (\<not> isNil (getProp params (dateSource k)) \<longrightarrow>
               map_of (paramsToQueryArgs params) k = Some (getProp params (dateSource k))))"
proof -
  have nd: "''query'' \<notin> set dateKeys"
    by (simp add: dateKeys_def)
  have "map_of (paramsToQueryArgs params) ''query'' = Some (getProp params ''query'')"
    using assms by (simp add: map_of_paramsToQueryArgs_other [OF nd])
  then show ?thesis
    using assms(2) by (simp add: map_of_paramsToQueryArgs_date)
qed

theorem paramsToQueryArgs_query_witness:
  "\<not> truthy (getProp [(''query'', JStr ''is:unresolved''), (''period'', JStr ''14d''),
                       (''utc'', JNull)] ''itemIds'')
   \<and> truthy (getProp [(''query'', JStr ''is:unresolved''), (''period'', JStr ''14d''),
                      (''utc'', JNull)] ''query'')
   \<and> map_of (paramsToQueryArgs [(''query'', JStr ''is:unresolved''), (''period'', JStr ''14d''),
                                 (''utc'', JNull)]) ''query'' = Some (JStr ''is:unresolved'')
   \<and> map_of (paramsToQueryArgs [(''query'', JStr ''is:unresolved''), (''period'', JStr ''14d''),
                                 (''utc'', JNull)]) ''statsPeriod'' = Some (JStr ''14d'')
   \<and> map_of (paramsToQueryArgs [(''query'', JStr ''is:unresolved''), (''period'', JStr ''14d''),
                                 (''utc'', JNull)]) ''utc'' = None
   \<and> map_of (paramsToQueryArgs [(''query'', JStr ''is:unresolved''), (''period'', JStr ''14d''),
                                 (''utc'', JNull)]) ''start'' = None"
proof -
  have h1: "\<not> truthy (getProp [(''query'', JStr ''is:unresolved''), (''period'', JStr ''14d''),
                       (''utc'', JNull)] ''itemIds'')"
    by (simp add: getProp_def)
  have h2: "truthy (getProp [(''query'', JStr ''is:unresolved''), (''period'', JStr ''14d''),
                      (''utc'', JNull)] ''query'')"
    by (simp add: getProp_def)
  show ?thesis
    using h1 h2 paramsToQueryArgs_query [OF h1 h2]
    by (simp add: dateKeys_def dateSource_def getProp_def)
qed

section \<open>The registry\<close>

text \<open>
  Claim C4. A request is issued from a well-formed state and its transport completes
  successfully: the success handler runs, then the complete handler. The identifier is
  registered by \<^verbatim>\<open>request\<close>, still registered after the success handler, and removed by
  the completion wrapper, which touches no other identifier. A call of \<^verbatim>\<open>clear()\<close>
  afterwards leaves the request's handle as it is (alive) and aborts no transport call of
  this request: it does not cancel the handle again.
\<close>

theorem request_completes_once:
  assumes "wellFormed s"
      and "request ext path options rid s = (Inr a, s1)"
      and "s2 = ajaxSuccess ext (xhr (heap s1 ! a)) d textStatus jqxhr s1"
      and "s3 = ajaxComplete ext (xhr (heap s1 ! a)) jqxhr2 textStatus2 s2"
  shows "map_of (activeRequests s1) rid = Some a
       \<and> map_of (activeRequests s2) rid = Some a
       \<and> map_of (activeRequests s3) rid = None
       \<and> (\<forall>k. k \<noteq> rid \<longrightarrow> map_of (activeRequests s3) k = map_of (activeRequests s) k)
       \<and> alive (heap s3 ! a)
       \<and> heap (clear ext s3) ! a = heap s3 ! a
       \<and> XhrAbort (xhr (heap s1 ! a)) \<notin> set (drop (length (trace s3)) (trace (clear ext s3)))"
proof -
  from assms(2) obtain b q where b: "requestBody ext options = Inr b"
    and q: "param ext (if truthy (query options) then query options else JArr []) = Inr q"
    by (rule request_Inr_cases)
  note r = assms(2) [unfolded request_ok [OF b q]]
  have a: "a = length (heap s)" using r by simp
  have h1: "heap s1 = heap s @ [\<lparr>alive = True, xhr = length (ajaxCalls s)\<rparr>]"
    using r by auto
  have c1: "ajaxCalls s1 ! length (ajaxCalls s) =
      \<lparr>completed = False, url = fullUrl (baseUrl s) path q, ajax_method = effectiveMethod options, ajax_data = b,
        contentType = ''application/json'',
        headers = [(''Accept'', ''application/json; charset=utf-8'')],
        req_id = rid, req_path = path, req_options = options,
        req_errorObject = errorObjects s,
        req_span = (b, methodName (effectiveMethod options) @ '' '' @ path)\<rparr>"
    and l1: "length (ajaxCalls s1) = Suc (length (ajaxCalls s))"
    using r by auto
  have x: "xhr (heap s1 ! a) = length (ajaxCalls s)"
    by (simp add: h1 a)
  have reg1: "activeRequests s1 = AList.update rid a (activeRequests s)"
    using r by auto
  have reg2: "activeRequests s2 = activeRequests s1" and h2: "heap s2 = heap s1"
    and c2: "ajaxCalls s2 = ajaxCalls s1"
    by (simp_all add: assms(3) ajaxSuccess_def Let_def split: option.splits)
  have reg3: "activeRequests s3 = AList.delete rid (activeRequests s1)" and h3: "heap s3 = heap s1"
    by (simp_all add: assms(4) ajaxComplete_def Let_def x c2 l1 c1 reg2 h2)
  have spare: "\<forall>k c. map_of (activeRequests s3) k = Some c \<longrightarrow>
      c \<noteq> a \<and> xhr (heap s3 ! c) \<noteq> xhr (heap s1 ! a)"
  proof (intro allI impI)
    fix k c assume "map_of (activeRequests s3) k = Some c"
    then have m: "map_of (activeRequests s) k = Some c"
      by (auto simp: reg3 reg1 delete_conv' update_conv' split: if_splits)
    then have lt: "c < length (heap s)" using assms(1) by (rule wellFormed_address [rotated])
    then have "xhr (heap s ! c) < length (ajaxCalls s)" using assms(1)
      by (rule wellFormed_xhr [rotated])
    then show "c \<noteq> a \<and> xhr (heap s3 ! c) \<noteq> xhr (heap s1 ! a)"
      using lt by (simp add: h3 h1 a x nth_append)
  qed
  have "map_of (activeRequests s1) rid = Some a"
    by (simp add: reg1 update_conv')
  moreover have "map_of (activeRequests s2) rid = Some a"
    by (simp add: reg2 reg1 update_conv')
  moreover have "map_of (activeRequests s3) rid = None"
    by (simp add: reg3 delete_conv')
  moreover have "\<forall>k. k \<noteq> rid \<longrightarrow> map_of (activeRequests s3) k = map_of (activeRequests s) k"
    by (simp add: reg3 reg1 delete_conv' update_conv')
  moreover have "alive (heap s3 ! a)"
    by (simp add: h3 h1 a)
  ultimately show ?thesis
    using clear_spares [OF spare] by simp
qed

theorem request_completes_once_witness:
  "wellFormed (newClient None)
   \<and> request exampleExternals ''/projects/'' exampleOptions ''r1'' (newClient None)
       = (Inr 0, issuedState)
   \<and> map_of (activeRequests issuedState) ''r1'' = Some 0
   \<and> map_of (activeRequests
        (ajaxComplete exampleExternals (xhr (heap issuedState ! 0)) JNull (JStr ''success'')
          (ajaxSuccess exampleExternals (xhr (heap issuedState ! 0)) (JArr []) (JStr ''success'')
             JNull issuedState))) ''r1'' = None
   \<and> alive (heap (clear exampleExternals
        (ajaxComplete exampleExternals (xhr (heap issuedState ! 0)) JNull (JStr ''success'')
          (ajaxSuccess exampleExternals (xhr (heap issuedState ! 0)) (JArr []) (JStr ''success'')
             JNull issuedState))) ! 0)"
proof -
  have w: "wellFormed (newClient None)"
    by (simp add: wellFormed_def newClient_def)
  show ?thesis
    using w request_example
      request_completes_once [OF w request_example refl refl,
        of "JArr []" "JStr ''success''" JNull JNull "JStr ''success''"]
    by simp
qed

text \<open>
  Claim C10. The completion wrapper (\<^verbatim>\<open>wrapCallback\<close> with \<^verbatim>\<open>cleanup\<close> set, as the complete
  handler of \<^verbatim>\<open>request\<close> builds it) deletes the identifier from the registry in every
  state, before the alive check and whatever its outcome: when the request is not
  registered-and-alive (a cancelled handle for one) the wrapper does nothing but the
  deletion, so the complete callback is suppressed and the registry is cleaned all the
  same.
\<close>

theorem wrapCallback_cleanup_unconditional:
  "map_of (activeRequests (wrapCallback ext rid func True args s)) rid = None
   \<and> (\<not> liveRequest s rid \<longrightarrow>
        wrapCallback ext rid func True args s =
          s\<lparr>activeRequests := AList.delete rid (activeRequests s)\<rparr>)
   \<and> (x < length (ajaxCalls s) \<longrightarrow>
        map_of (activeRequests (ajaxComplete ext x jqxhr textStatus s))
          (req_id (ajaxCalls s ! x)) = None)"
  by (simp add: delete_conv' wrapCallback_dead ajaxComplete_def Let_def)

theorem wrapCallback_cleanup_unconditional_witness:
  "cancel exampleExternals 0 issuedState =
     log [Metric ''app.api.request-abort'' 1]
       (ajaxComplete exampleExternals 0 abortedXhr (JStr ''abort'') abortingState)
   \<and> \<not> liveRequest abortingState ''r1''
   \<and> map_of (activeRequests abortingState) ''r1'' = Some 0
   \<and> wrapCallback exampleExternals ''r1'' (Some (UserCallback 2)) True
        [abortedXhr, JStr ''abort''] abortingState
       = abortingState\<lparr>activeRequests := AList.delete ''r1'' (activeRequests abortingState)\<rparr>
   \<and> 0 < length (ajaxCalls abortingState)
   \<and> req_id (ajaxCalls abortingState ! 0) = ''r1''
   \<and> map_of (activeRequests
        (ajaxComplete exampleExternals 0 abortedXhr (JStr ''abort'') abortingState)) ''r1''
       = None"
proof -
  have d: "\<not> liveRequest abortingState ''r1''"
    by (simp add: abortingState_eq issuedState_eq liveRequest_def)
  have l: "0 < length (ajaxCalls abortingState)"
    by (simp add: abortingState_eq issuedState_eq)
  show ?thesis
    using d l cancel_example
      wrapCallback_cleanup_unconditional [of exampleExternals "''r1''" "Some (UserCallback 2)"
        "[abortedXhr, JStr ''abort'']" abortingState 0 abortedXhr "JStr ''abort''"]
    by (simp add: abortingState_eq issuedState_eq)
qed

section \<open>Issuing a request\<close>

text \<open>
  Claim C5. When serializing \<^verbatim>\<open>options.query\<close> throws, \<^verbatim>\<open>request\<close> ends with the thrown
  value (it is re-raised to the caller), and the only effects are the span started before
  and the report to the observability collaborator, which carries \<^verbatim>\<open>path\<close> and
  \<^verbatim>\<open>options.query\<close> as extras and the thrown value as the exception; the registry, the
  heap of Request objects and the transport calls are as before, so no identifier is
  registered.
\<close>

theorem request_serialization_failure:
  assumes "requestBody ext options = Inr b"
      and "param ext (if truthy (query options) then query options else JArr []) = Inl err"
  shows "request ext path options rid s =
           (Inl err,
            log [StartSpan b (methodName (effectiveMethod options) @ '' '' @ path),
                 CaptureException None []
                   [(''path'', JStr path), (''query'', query options)] err] s)
       \<and> activeRequests (snd (request ext path options rid s)) = activeRequests s
       \<and> heap (snd (request ext path options rid s)) = heap s
       \<and> ajaxCalls (snd (request ext path options rid s)) = ajaxCalls s"
  using assms by (simp add: request_def Let_def log_def)

theorem request_serialization_failure_witness:
  "requestBody throwingExternals exampleOptions = Inr JUndefined
   \<and> param throwingExternals
        (if truthy (query exampleOptions) then query exampleOptions else JArr [])
       = Inl (JStr ''cyclic object value'')
   \<and> request throwingExternals ''/projects/'' exampleOptions ''r1'' (newClient None) =
        (Inl (JStr ''cyclic object value''),
         log [StartSpan JUndefined ''GET /projects/'',
              CaptureException None [] [(''path'', JStr ''/projects/''), (''query'', JUndefined)]
                (JStr ''cyclic object value'')] (newClient None))
   \<and> activeRequests
        (snd (request throwingExternals ''/projects/'' exampleOptions ''r1'' (newClient None)))
       = []"
proof -
  have b: "requestBody throwingExternals exampleOptions = Inr JUndefined"
    by (simp add: requestBody_def example_defs)
  have q: "param throwingExternals
        (if truthy (query exampleOptions) then query exampleOptions else JArr [])
       = Inl (JStr ''cyclic object value'')"
    by (simp add: example_defs)
  show ?thesis
    using b q request_serialization_failure [OF b q, of "''/projects/''" "''r1''" "newClient None"]
    by (simp add: effectiveMethod_def exampleOptions_def newClient_def)
qed

text \<open>
  Claim C8. When \<^verbatim>\<open>options.method\<close> is absent the effective method is POST if a payload
  is given (\<^verbatim>\<open>options.data\<close> is truthy) and GET otherwise. Whenever \<^verbatim>\<open>request\<close> returns a
  handle, the transport call behind the handle was issued with the effective method, and
  if that method is not GET and the payload is defined, the body sent is what
  \<^verbatim>\<open>JSON.stringify\<close> made of \<^verbatim>\<open>options.data\<close>.
\<close>

theorem request_method_and_body:
  "(method' options = None \<longrightarrow>
      effectiveMethod options = (if truthy (data options) then POST else GET))
   \<and> (request ext path options rid s = (Inr a, s') \<longrightarrow>
        ajax_method (ajaxCalls s' ! xhr (heap s' ! a)) = effectiveMethod options
        \<and> (effectiveMethod options \<noteq> GET \<and> \<not> isUndefined (data options) \<longrightarrow>
             stringify ext (data options) = Inr (ajax_data (ajaxCalls s' ! xhr (heap s' ! a)))))"
proof -
  have "effectiveMethod options = (if truthy (data options) then POST else GET)"
    if "method' options = None"
    using that by (simp add: effectiveMethod_def)
  moreover have "ajax_method (ajaxCalls s' ! xhr (heap s' ! a)) = effectiveMethod options
        \<and> (effectiveMethod options \<noteq> GET \<and> \<not> isUndefined (data options) \<longrightarrow>
             stringify ext (data options) = Inr (ajax_data (ajaxCalls s' ! xhr (heap s' ! a))))"
    if r: "request ext path options rid s = (Inr a, s')"
  proof -
    from r obtain b q where b: "requestBody ext options = Inr b"
      and q: "param ext (if truthy (query options) then query options else JArr []) = Inr q"
      by (rule request_Inr_cases)
    from r request_ok [OF b q, of path rid s] show ?thesis
      using b by (auto simp: requestBody_def)
  qed
  ultimately show ?thesis by blast
qed

theorem request_method_and_body_witness:
  "method' updateOptions = None
   \<and> effectiveMethod updateOptions = POST
   \<and> effectiveMethod exampleOptions = GET
   \<and> request exampleExternals ''/issues/'' updateOptions ''r2'' issuedState
       = (Inr 1, snd (request exampleExternals ''/issues/'' updateOptions ''r2'' issuedState))
   \<and> \<not> isUndefined (data updateOptions)
   \<and> ajax_method (ajaxCalls (snd (request exampleExternals ''/issues/'' updateOptions ''r2''
        issuedState)) ! xhr (heap (snd (request exampleExternals ''/issues/'' updateOptions ''r2''
        issuedState)) ! 1)) = POST
   \<and> ajax_data (ajaxCalls (snd (request exampleExternals ''/issues/'' updateOptions ''r2''
        issuedState)) ! xhr (heap (snd (request exampleExternals ''/issues/'' updateOptions ''r2''
        issuedState)) ! 1)) = JStr ''[1,2]''"
proof -
  have m: "method' updateOptions = None" "method' exampleOptions = None"
    by (simp_all add: example_defs)
  have e: "effectiveMethod updateOptions = POST" "effectiveMethod exampleOptions = GET"
    using m request_method_and_body [of updateOptions] request_method_and_body [of exampleOptions]
    by (simp_all add: example_defs)
  have r: "request exampleExternals ''/issues/'' updateOptions ''r2'' issuedState
       = (Inr 1, snd (request exampleExternals ''/issues/'' updateOptions ''r2'' issuedState))"
    by (simp add: issuedState_eq model_defs example_defs)
  have u: "\<not> isUndefined (data updateOptions)"
    by (simp add: example_defs)
  show ?thesis
    using m e r u
      request_method_and_body [of updateOptions exampleExternals "''/issues/''" "''r2''"
        issuedState 1 "snd (request exampleExternals ''/issues/'' updateOptions ''r2'' issuedState)"]
    by (simp add: exampleExternals_def updateOptions_def)
qed

section \<open>Cancellation\<close>

text \<open>
  Claim C3. A request that \<^verbatim>\<open>request\<close> has just issued is in flight. When \<^verbatim>\<open>cancel()\<close> is
  called on the handle of a request in flight, that is, before the request completes, the
  handle is marked not alive and the transport call is aborted; the handlers that run
  inside the abort call no caller-supplied function, settle no promise and open no
  re-authentication flow, and the identifier leaves the registry. The call is then
  completed, so whatever the transport receives for it afterwards, in any number and of
  any kind, changes nothing: none of the caller's success, error or complete callbacks
  is ever invoked for that request.
\<close>

theorem cancelled_request_delivers_nothing:
  "(request ext path options rid s = (Inr a, s1) \<longrightarrow> inFlight s1 rid a)
   \<and> (inFlight t rid a \<longrightarrow>
        \<not> alive (heap (cancel ext a t) ! a)
        \<and> invocations (cancel ext a t) = invocations t
        \<and> promises (cancel ext a t) = promises t
        \<and> microtasks (cancel ext a t) = microtasks t
        \<and> sudoModals (cancel ext a t) = sudoModals t
        \<and> map_of (activeRequests (cancel ext a t)) rid = None
        \<and> foldl (\<lambda>u r. jqDone ext (xhr (heap t ! a)) r u) (cancel ext a t) rs
            = cancel ext a t)"
proof -
  have "\<not> alive (heap (cancel ext a t) ! a)" if "inFlight t rid a"
    using that by (simp add: inFlight_def cancel_dead)
  moreover have "foldl (\<lambda>u r. jqDone ext (xhr (heap t ! a)) r u) (cancel ext a t) rs
      = cancel ext a t" if "inFlight t rid a"
    using cancel_inFlight(6) [OF that] by (rule deliveries_completed)
  ultimately show ?thesis
    using request_inFlight [of ext path options rid s a s1]
      cancel_inFlight(1-5) [of t rid a ext]
    by blast
qed

theorem cancelled_request_delivers_nothing_witness:
  "request exampleExternals ''/projects/'' exampleOptions ''r1'' (newClient None)
     = (Inr 0, issuedState)
   \<and> inFlight issuedState ''r1'' 0
   \<and> cancelledState = cancel exampleExternals 0 issuedState
   \<and> \<not> alive (heap cancelledState ! 0)
   \<and> invocations cancelledState = []
   \<and> promises cancelledState = []
   \<and> sudoModals cancelledState = []
   \<and> map_of (activeRequests cancelledState) ''r1'' = None
   \<and> foldl (\<lambda>u r. jqDone exampleExternals (xhr (heap issuedState ! 0)) r u) cancelledState
        [Failed sudoResponse (JStr ''error'') (JStr ''Unauthorized''),
         Succeeded (JArr []) (JStr ''success'') JNull] = cancelledState"
proof -
  note t = cancelled_request_delivers_nothing [of exampleExternals "''/projects/''"
      exampleOptions "''r1''" "newClient None" 0 issuedState issuedState
      "[Failed sudoResponse (JStr ''error'') (JStr ''Unauthorized''),
        Succeeded (JArr []) (JStr ''success'') JNull]"]
  from t request_example have f: "inFlight issuedState ''r1'' 0"
    by blast
  have i: "invocations issuedState = []" "promises issuedState = []"
    "sudoModals issuedState = []"
    by (simp_all add: issuedState_eq invocations_def)
  from t f have c: "\<not> alive (heap (cancel exampleExternals 0 issuedState) ! 0)"
    "invocations (cancel exampleExternals 0 issuedState) = invocations issuedState"
    "promises (cancel exampleExternals 0 issuedState) = promises issuedState"
    "sudoModals (cancel exampleExternals 0 issuedState) = sudoModals issuedState"
    "map_of (activeRequests (cancel exampleExternals 0 issuedState)) ''r1'' = None"
    "foldl (\<lambda>u r. jqDone exampleExternals (xhr (heap issuedState ! 0)) r u)
        (cancel exampleExternals 0 issuedState)
        [Failed sudoResponse (JStr ''error'') (JStr ''Unauthorized''),
         Succeeded (JArr []) (JStr ''success'') JNull] = cancel exampleExternals 0 issuedState"
    by blast+
  show ?thesis
    using request_example f c
    by (simp only: cancelledState_def i simp_thms)
qed

section \<open>The promise of requestPromise\<close>





section \<open>Re-authentication\<close>




text \<open>
  Claim C9. After \<^verbatim>\<open>handleRequestError\<close> has opened the re-authentication flow, the
  closures of the flow call the caller's functions directly. In any later state in which
  the flow is still open, whatever the registry and the heap hold, \<^verbatim>\<open>onClose\<close> calls the
  original error callback with the original response, and the reaction that
  \<^verbatim>\<open>retryRequest\<close> attaches calls the original success callback with the value of a
  resolved retry and the original error callback with the reason of a rejected one. The
  same error callback behind \<^verbatim>\<open>wrapCallback\<close> is not called when the request is not
  registered and alive. So these calls happen also for a request whose handle has been
  cancelled or whose identifier has been removed from the registry.
\<close>

theorem reauthentication_callbacks_unchecked:
  assumes "isSudoRequired ext response"
      and "sA = handleRequestError ext rid path ro response responseArgs s"
      and "k = length (sudoModals s)"
      and "sudoModals t = sudoModals sA"
      and "success ro = Some (UserCallback n)"
      and "error ro = Some (UserCallback m)"
      and "requestBody ext ro = Inr b"
      and "param ext (if truthy (query ro) then query ro else JArr []) = Inr q"
  shows "invocations (onClose k t) = invocations t @ [Invoke m [response]]
       \<and> reactions (promises (retryRequest ext k rid' t) ! length (promises t))
           = [Forward (success ro) (error ro)]
       \<and> invocations (runReaction (Forward (success ro) (error ro)) (Resolved v) t)
           = invocations t @ [Invoke n [v]]
       \<and> invocations (runReaction (Forward (success ro) (error ro)) (Rejected e) t)
           = invocations t @ [Invoke m [e]]
       \<and> (\<not> liveRequest t rid \<longrightarrow>
            invocations (wrapCallback ext rid (error ro) False (response # responseArgs) t)
              = invocations t)"
proof -
  note sA = assms(2) [unfolded handleRequestError_sudo [OF assms(1)]]
  have kt: "k < length (sudoModals t)"
    and pt: "sudo_path (sudoModals t ! k) = path"
    and ot: "sudo_requestOptions (sudoModals t ! k) = ro"
    and rt: "sudo_response (sudoModals t ! k) = response"
    by (simp_all add: assms(4) sA assms(3))
  have "invocations (onClose k t) = invocations t @ [Invoke m [response]]"
    by (simp add: onClose_def Let_def kt ot rt assms(6) invocations_log)
  moreover have "reactions (promises (retryRequest ext k rid' t) ! length (promises t))
           = [Forward (success ro) (error ro)]"
    by (simp add: retryRequest_ok [OF kt pt ot assms(7) assms(8)])
  moreover have "invocations (runReaction (Forward (success ro) (error ro)) (Resolved v) t)
           = invocations t @ [Invoke n [v]]"
    by (simp add: assms(5) invocations_log)
  moreover have "invocations (runReaction (Forward (success ro) (error ro)) (Rejected e) t)
           = invocations t @ [Invoke m [e]]"
    by (simp add: assms(6) invocations_log)
  moreover have "invocations (wrapCallback ext rid (error ro) False (response # responseArgs) t)
              = invocations t" if "\<not> liveRequest t rid"
    using that by (simp add: wrapCallback_dead)
  ultimately show ?thesis by blast
qed

theorem reauthentication_callbacks_unchecked_witness:
  "isSudoRequired exampleExternals sudoResponse
   \<and> sudoModals closedState = sudoModals sudoState
   \<and> success exampleOptions = Some (UserCallback 1)
   \<and> error exampleOptions = Some (UserCallback 3)
   \<and> requestBody exampleExternals exampleOptions = Inr JUndefined
   \<and> param exampleExternals
        (if truthy (query exampleOptions) then query exampleOptions else JArr []) = Inr []
   \<and> \<not> liveRequest closedState ''r1''
   \<and> map_of (activeRequests closedState) ''r1'' = None
   \<and> \<not> alive (heap closedState ! 0)
   \<and> invocations (onClose 0 closedState) = invocations closedState @ [Invoke 3 [sudoResponse]]
   \<and> invocations (runReaction (Forward (success exampleOptions) (error exampleOptions))
          (Resolved (JArr [])) closedState) = invocations closedState @ [Invoke 1 [JArr []]]
   \<and> invocations (wrapCallback exampleExternals ''r1'' (error exampleOptions) False
          [sudoResponse, JStr ''error'', JStr ''Unauthorized''] closedState)
       = invocations closedState"
proof -
  have sudo: "isSudoRequired exampleExternals sudoResponse"
    by (simp add: isSudoRequired_def example_defs)
  have k: "0 = length (sudoModals issuedState)"
    by (simp add: issuedState_eq)
  have sm: "sudoModals closedState = sudoModals sudoState"
    by (simp add: closedState_eq sudoState_eq)
  have c: "success exampleOptions = Some (UserCallback 1)"
    "error exampleOptions = Some (UserCallback 3)"
    by (simp_all add: example_defs)
  have b: "requestBody exampleExternals exampleOptions = Inr JUndefined"
    by (simp add: requestBody_def example_defs)
  have q: "param exampleExternals
        (if truthy (query exampleOptions) then query exampleOptions else JArr []) = Inr []"
    by (simp add: example_defs)
  have d: "\<not> liveRequest closedState ''r1''" "map_of (activeRequests closedState) ''r1'' = None"
    "\<not> alive (heap closedState ! 0)"
    by (simp_all add: closedState_eq liveRequest_def)
  note t = reauthentication_callbacks_unchecked [OF sudo sudoState_def k sm c b q,
      where v = "JArr []"]
  from t have i1: "invocations (onClose 0 closedState)
      = invocations closedState @ [Invoke 3 [sudoResponse]]"
    by blast
  from t have i2: "invocations (runReaction (Forward (success exampleOptions)
          (error exampleOptions)) (Resolved (JArr [])) closedState)
      = invocations closedState @ [Invoke 1 [JArr []]]"
    by blast
  from t d have i3: "invocations (wrapCallback exampleExternals ''r1'' (error exampleOptions) False
          [sudoResponse, JStr ''error'', JStr ''Unauthorized''] closedState)
       = invocations closedState"
    by blast
  show ?thesis
    using sudo sm c b q d i1 i2 i3 by simp
qed

end
